theory Spec2Isabelle
  imports Main "HOL-Library.AList" "HOL-Library.Countable"
begin

section \<open>Session snapshot and restore (src/utils/RemoteAuth.js)\<close>

text \<open>
  A shallow embedding of \<^verbatim>\<open>preRestoreSession\<close>, \<^verbatim>\<open>hasPreRestoredSession\<close>,
  \<^verbatim>\<open>collectEssentialFiles\<close>, \<^verbatim>\<open>collectDirFiles\<close> and \<^verbatim>\<open>saveSession\<close>.
  Buffers and JavaScript strings are lists of characters. The Node library functions the
  code calls (base64, UTF-8, JSON, gzip, path) are not part of the repository: they are
  the fields of a record \<open>platform\<close> that every function takes, and a theorem that needs
  one of their laws states it as a hypothesis.
\<close>

subsection \<open>Constants\<close>

type_synonym bytes = "char list"

definition MAX_TOTAL_SIZE :: nat where
  "MAX_TOTAL_SIZE = 15 * 1024 * 1024"

definition MAX_FILE_SIZE :: nat where
  "MAX_FILE_SIZE = 5 * 1024 * 1024"

definition ESSENTIAL_DIRS :: "string list" where
  "ESSENTIAL_DIRS = [''IndexedDB'', ''Local Storage'']"

definition LOCK_NAMES :: "string list" where
  "LOCK_NAMES = [''LOCK'', ''SingletonLock'', ''SingletonCookie'', ''SingletonSocket'']"

subsection \<open>JSON values and the JavaScript operations on them\<close>

text \<open>
  What \<^verbatim>\<open>JSON.parse\<close> returns. An object lists its own properties in the order
  \<^verbatim>\<open>Object.entries\<close> enumerates them.
\<close>

datatype json =
    JNull
  | JBool bool
  | JNum rat
  | JStr string
  | JArr "json list"
  | JObj "(string \<times> json) list"

text \<open>
  Reading the property \<^verbatim>\<open>data\<close> or \<^verbatim>\<open>files\<close> of a parsed value: a \<^verbatim>\<open>TypeError\<close>
  on \<^verbatim>\<open>null\<close> (the outer \<open>None\<close>), \<^verbatim>\<open>undefined\<close> (the inner \<open>None\<close>) on a
  primitive, a string or an array, the property's value on an object.
\<close>

fun js_get :: "json \<Rightarrow> string \<Rightarrow> json option option" where
  "js_get JNull k = None"
| "js_get (JObj kvs) k = Some (map_of kvs k)"
| "js_get v k = Some None"

text \<open>JavaScript truthiness of a value that may be \<^verbatim>\<open>undefined\<close>.\<close>

fun truthy :: "json option \<Rightarrow> bool" where
  "truthy None = False"
| "truthy (Some JNull) = False"
| "truthy (Some (JBool b)) = b"
| "truthy (Some (JNum r)) = (r \<noteq> 0)"
| "truthy (Some (JStr s)) = (s \<noteq> [])"
| "truthy (Some (JArr xs)) = True"
| "truthy (Some (JObj kvs)) = True"

fun dec_string :: "nat \<Rightarrow> string" where
  "dec_string n =
     (if n < 10 then [char_of (48 + n)]
      else dec_string (n div 10) @ [char_of (48 + n mod 10)])"

subsection \<open>The platform and the world\<close>

record platform =
  b64enc :: "bytes \<Rightarrow> string"
  b64dec :: "string \<Rightarrow> bytes"
  buffer_from_other :: "json \<Rightarrow> bytes option"
  utf8enc :: "string \<Rightarrow> bytes"
  utf8dec :: "bytes \<Rightarrow> string"
  json_stringify :: "json \<Rightarrow> string option"
  json_parse :: "string \<Rightarrow> json option"
  gzip :: "bytes \<Rightarrow> bytes option"
  gunzip :: "bytes \<Rightarrow> bytes option"
  path_join :: "string \<Rightarrow> string \<Rightarrow> string"
  path_relative :: "string \<Rightarrow> string \<Rightarrow> string"
  utf16_units :: "string \<Rightarrow> string list"

text \<open>
  \<open>b64enc\<close> is \<^verbatim>\<open>buf.toString('base64')\<close> and \<open>b64dec\<close> is
  \<^verbatim>\<open>Buffer.from(s, 'base64')\<close> on a string, which never throws;
  \<open>buffer_from_other\<close> is \<^verbatim>\<open>Buffer.from(v, 'base64')\<close> on a value that is not a
  string, \<open>None\<close> where it throws. \<open>utf8enc\<close> is \<^verbatim>\<open>Buffer.from(s)\<close> (also the
  conversion \<^verbatim>\<open>zlib.gzip\<close> applies to a string), \<open>utf8dec\<close> is
  \<^verbatim>\<open>buf.toString('utf-8')\<close>. \<open>None\<close> from \<open>json_stringify\<close>, \<open>json_parse\<close>,
  \<open>gzip\<close> or \<open>gunzip\<close> is a thrown exception. \<open>utf16_units s\<close> lists the UTF-16
  code units of the JavaScript string that \<open>s\<close> stands for, each as a string of its own
  (\<^verbatim>\<open>s[0]\<close>, \<^verbatim>\<open>s[1]\<close>, ...).
\<close>

text \<open>
  \<^verbatim>\<open>Object.entries\<close> of a truthy value: the properties of an object, the indexed
  elements of an array, the indexed UTF-16 code units of a string (as the platform
  gives them), nothing for a number or a boolean.
\<close>

fun object_entries :: "platform \<Rightarrow> json \<Rightarrow> (string \<times> json) list" where
  "object_entries P (JObj kvs) = kvs"
| "object_entries P (JArr xs) = zip (map dec_string [0..<length xs]) xs"
| "object_entries P (JStr s) =
     zip (map dec_string [0..<length (utf16_units P s)]) (map JStr (utf16_units P s))"
| "object_entries P v = []"


text \<open>
  Modelled from the spec: the durable store (\<^verbatim>\<open>../config/database\<close>) and the logger are
  not under src/. The store is the map from account identifiers to blobs with the
  operations get, set (overwrite) and clear of the spec's section 6; each call may
  throw, which the flags of \<open>world\<close> decide. \<open>mkdir_ok p\<close> says that
  \<^verbatim>\<open>fs.mkdir(p, {recursive: true})\<close> succeeds, \<open>write_ok p\<close> that creating the parent
  directory of \<open>p\<close> and \<^verbatim>\<open>fs.writeFile(p, ...)\<close> both succeed.
\<close>

type_synonym store = "string \<rightharpoonup> string"

record world =
  mkdir_ok :: "string \<Rightarrow> bool"
  write_ok :: "string \<Rightarrow> bool"
  db_get_ok :: bool
  db_set_ok :: bool
  db_clear_ok :: bool

text \<open>What a run does to the outside, in order.\<close>

datatype event =
    DbGet string
  | DbClear string
  | DbSet string string
  | Wrote string bytes
  | LogError string
  | LogWarn string
  | LogRestored nat nat

subsection \<open>preRestoreSession\<close>

text \<open>The returned object \<^verbatim>\<open>{ restored, sessionPath }\<close>, with the trace and the store.\<close>

record outcome =
  restored :: bool
  sessionPath :: string
  events :: "event list"
  store_after :: store

definition buffer_from_b64 :: "platform \<Rightarrow> json \<Rightarrow> bytes option" where
  "buffer_from_b64 P v = (case v of JStr s \<Rightarrow> Some (b64dec P s) | _ \<Rightarrow> buffer_from_other P v)"

text \<open>
  Lines 64 to 67, the body of the inner \<^verbatim>\<open>try\<close>: \<open>None\<close> when any step throws,
  otherwise the value of \<^verbatim>\<open>sessionObj.files\<close>.
\<close>

definition decode_files :: "platform \<Rightarrow> json \<Rightarrow> json option option" where
  "decode_files P d =
     (case buffer_from_b64 P d of
        None \<Rightarrow> None
      | Some compressed \<Rightarrow>
          (case gunzip P compressed of
             None \<Rightarrow> None
           | Some decompressed \<Rightarrow>
               (case json_parse P (utf8dec P decompressed) of
                  None \<Rightarrow> None
                | Some sessionObj \<Rightarrow> js_get sessionObj ''files'')))"

text \<open>
  Lines 86 to 96, the loop over \<^verbatim>\<open>Object.entries(files)\<close>: the number of files
  written and the events, an entry whose decoding or writing throws being skipped.
\<close>

fun restore_entries ::
  "platform \<Rightarrow> world \<Rightarrow> string \<Rightarrow> (string \<times> json) list \<Rightarrow> nat \<times> event list" where
  "restore_entries P W sp [] = (0, [])"
| "restore_entries P W sp ((relPath, b64Content) # es) =
     (let fullPath = path_join P sp relPath;
          (n, evs) = restore_entries P W sp es
      in case (if write_ok W fullPath then buffer_from_b64 P b64Content else None) of
           Some content \<Rightarrow> (Suc n, Wrote fullPath content # evs)
         | None \<Rightarrow> (n, LogWarn relPath # evs))"

definition caught :: "string \<Rightarrow> event list \<Rightarrow> store \<Rightarrow> outcome" where
  "caught sp evs st =
     \<lparr>restored = False, sessionPath = sp, events = evs @ [LogError ''Restore error''],
      store_after = st\<rparr>"

definition clear_and_fail ::
  "world \<Rightarrow> string \<Rightarrow> string \<Rightarrow> event list \<Rightarrow> store \<Rightarrow> outcome" where
  "clear_and_fail W accountId sp evs st =
     (if db_clear_ok W
      then \<lparr>restored = False, sessionPath = sp, events = evs @ [DbClear accountId],
            store_after = st(accountId := None)\<rparr>
      else caught sp (evs @ [DbClear accountId]) st)"

definition preRestoreSession ::
  "platform \<Rightarrow> world \<Rightarrow> store \<Rightarrow> string \<Rightarrow> string \<Rightarrow> outcome" where
  "preRestoreSession P W st accountId dataPath =
     (let sp = path_join P dataPath accountId;
          fail = (\<lambda>evs. \<lparr>restored = False, sessionPath = sp, events = evs, store_after = st\<rparr>)
      in
      if \<not> mkdir_ok W dataPath \<or> \<not> mkdir_ok W sp then caught sp [] st
      else if \<not> db_get_ok W then caught sp [DbGet accountId] st
      else
        (case st accountId of
           None \<Rightarrow> fail [DbGet accountId]
         | Some sessionData \<Rightarrow>
             if sessionData = [] then fail [DbGet accountId]
             else
               (case json_parse P (utf8dec P (b64dec P sessionData)) of
                  None \<Rightarrow>
                    clear_and_fail W accountId sp
                      [DbGet accountId, LogError ''Corrupted session data, clearing''] st
                | Some payload \<Rightarrow>
                    (case js_get payload ''data'' of
                       None \<Rightarrow> caught sp [DbGet accountId] st
                     | Some d \<Rightarrow>
                         if truthy d then
                           (case decode_files P (the d) of
                              None \<Rightarrow>
                                clear_and_fail W accountId sp
                                  [DbGet accountId, LogError ''Decompression failed''] st
                            | Some files \<Rightarrow>
                                if \<not> truthy files \<or> object_entries P (the files) = []
                                then fail [DbGet accountId, LogWarn ''Empty session'']
                                else
                                  (let ents = object_entries P (the files);
                                       (n, evs) = restore_entries P W sp ents
                                   in \<lparr>restored = True, sessionPath = sp,
                                        events = DbGet accountId # evs @
                                          [LogRestored n (length ents)],
                                        store_after = st\<rparr>))
                         else fail [DbGet accountId, LogWarn ''Unknown format'']))))"

text \<open>
  The function as it is exported and called: its arguments are JavaScript values
  (\<open>None\<close> is \<^verbatim>\<open>undefined\<close>). An undefined \<^verbatim>\<open>dataPath\<close> takes the default
  \<^verbatim>\<open>'./wa-sessions-temp'\<close>. Line 34, \<^verbatim>\<open>path.join(dataPath, accountId)\<close>, is before
  the \<^verbatim>\<open>try\<close> and throws a \<^verbatim>\<open>TypeError\<close> unless both are strings: the result \<open>None\<close>
  is the rejected promise. On strings the call is \<open>preRestoreSession\<close> above, the rest
  of the body.
\<close>

definition preRestoreSession_call ::
  "platform \<Rightarrow> world \<Rightarrow> store \<Rightarrow> json option \<Rightarrow> json option \<Rightarrow> outcome option" where
  "preRestoreSession_call P W st accountId dataPath =
     (case (case dataPath of None \<Rightarrow> Some (JStr ''./wa-sessions-temp'') | Some v \<Rightarrow> Some v) of
        Some (JStr d) \<Rightarrow>
          (case accountId of
             Some (JStr a) \<Rightarrow> Some (preRestoreSession P W st a d)
           | _ \<Rightarrow> None)
      | _ \<Rightarrow> None)"

subsection \<open>hasPreRestoredSession\<close>

text \<open>
  The session tree. A \<open>File\<close> carries its content, whose length is the size
  \<^verbatim>\<open>fs.stat\<close> reports; \<open>Unreadable\<close> is a file on which \<^verbatim>\<open>fs.stat\<close> or
  \<^verbatim>\<open>fs.readFile\<close> throws; \<open>Dir\<close> lists its entries in the order \<^verbatim>\<open>readdir\<close> returns
  them; \<open>BadDir\<close> is a directory on which \<^verbatim>\<open>readdir\<close> throws.
  \<^verbatim>\<open>entry.isDirectory()\<close> holds of \<open>Dir\<close> and \<open>BadDir\<close>.
\<close>

datatype node =
    File bytes
  | Unreadable
  | Dir "(string \<times> node) list"
  | BadDir

text \<open>The node at \<^verbatim>\<open>path.join(p, name)\<close>, given the node at \<open>p\<close> (\<open>None\<close>: no such path).\<close>

fun child :: "node option \<Rightarrow> string \<Rightarrow> node option" where
  "child (Some (Dir es)) name = map_of es name"
| "child n name = None"

text \<open>\<^verbatim>\<open>readdirSync\<close>: the names, \<open>None\<close> where it throws.\<close>

fun readdir :: "node \<Rightarrow> string list option" where
  "readdir (Dir es) = Some (map fst es)"
| "readdir n = None"

definition hasPreRestoredSession :: "node option \<Rightarrow> bool" where
  "hasPreRestoredSession sess =
     (case child (child sess ''Default'') ''IndexedDB'' of
        None \<Rightarrow> False
      | Some indexedDb \<Rightarrow>
          (case readdir indexedDb of
             None \<Rightarrow> False
           | Some files \<Rightarrow> length files > 0))"

subsection \<open>collectDirFiles and collectEssentialFiles\<close>

text \<open>
  The object \<^verbatim>\<open>files\<close> is an association list in insertion order: assigning to a key
  that is present replaces its value in place, a new key goes to the end, as
  \<open>AList.update\<close> does. The second component is \<^verbatim>\<open>stats.totalSize\<close>.
\<close>

type_synonym cstate = "(string \<times> string) list \<times> nat"

fun collectDirFiles :: "platform \<Rightarrow> string \<Rightarrow> string \<Rightarrow> node \<Rightarrow> cstate \<Rightarrow> cstate"
  and collect_entries ::
    "platform \<Rightarrow> string \<Rightarrow> string \<Rightarrow> (string \<times> node) list \<Rightarrow> cstate \<Rightarrow> cstate" where
  "collectDirFiles P dir baseDir (Dir es) s = collect_entries P dir baseDir es s"
| "collectDirFiles P dir baseDir (File c) s = s"
| "collectDirFiles P dir baseDir Unreadable s = s"
| "collectDirFiles P dir baseDir BadDir s = s"
| "collect_entries P dir baseDir [] s = s"
| "collect_entries P dir baseDir ((name, n) # es) s =
     (if snd s > MAX_TOTAL_SIZE then s
      else
        (let fullPath = path_join P dir name;
             relPath = path_relative P baseDir fullPath
         in case n of
              Dir sub \<Rightarrow>
                collect_entries P dir baseDir es (collectDirFiles P fullPath baseDir n s)
            | BadDir \<Rightarrow>
                collect_entries P dir baseDir es (collectDirFiles P fullPath baseDir n s)
            | Unreadable \<Rightarrow> collect_entries P dir baseDir es s
            | File content \<Rightarrow>
                if name \<in> set LOCK_NAMES then collect_entries P dir baseDir es s
                else if length content = 0 \<or> length content > MAX_FILE_SIZE
                then collect_entries P dir baseDir es s
                else collect_entries P dir baseDir es
                       (AList.update relPath (b64enc P content) (fst s),
                        snd s + length content)))"

text \<open>
  The loop of \<^verbatim>\<open>collectEssentialFiles\<close> over \<^verbatim>\<open>ESSENTIAL_DIRS\<close>: a directory that
  \<^verbatim>\<open>fs.access\<close> does not find is passed over, every other one is walked with a fresh
  \<^verbatim>\<open>stats\<close> object whose total is added to \<^verbatim>\<open>totalSize\<close> afterwards.
\<close>

fun collect_essential ::
  "platform \<Rightarrow> string \<Rightarrow> string \<Rightarrow> node option \<Rightarrow> string list \<Rightarrow> cstate \<Rightarrow> cstate" where
  "collect_essential P sp defaultPath dflt [] s = s"
| "collect_essential P sp defaultPath dflt (essentialDir # ds) s =
     (let dirPath = path_join P defaultPath essentialDir
      in case child dflt essentialDir of
           None \<Rightarrow> collect_essential P sp defaultPath dflt ds s
         | Some n \<Rightarrow>
             (let stats = collectDirFiles P dirPath sp n (fst s, 0)
              in collect_essential P sp defaultPath dflt ds (fst stats, snd s + snd stats)))"

definition collectEssentialFiles :: "platform \<Rightarrow> string \<Rightarrow> node option \<Rightarrow> cstate" where
  "collectEssentialFiles P sp sess =
     collect_essential P sp (path_join P sp ''Default'') (child sess ''Default'')
       ESSENTIAL_DIRS ([], 0)"

subsection \<open>saveSession\<close>

record save_outcome =
  saved :: bool
  save_events :: "event list"
  save_store :: store

definition save_failed :: "event list \<Rightarrow> store \<Rightarrow> save_outcome" where
  "save_failed evs st = \<lparr>saved = False, save_events = evs, save_store = st\<rparr>"

text \<open>The Snapshot Payload \<^verbatim>\<open>{ files, ts, id }\<close> and the envelope around it.\<close>

definition session_data :: "(string \<times> string) list \<Rightarrow> rat \<Rightarrow> string \<Rightarrow> json" where
  "session_data files ts accountId =
     JObj [(''files'', JObj (map (\<lambda>(k, v). (k, JStr v)) files)),
           (''ts'', JNum ts), (''id'', JStr accountId)]"

definition envelope :: "string \<Rightarrow> string \<Rightarrow> json" where
  "envelope d savedAt =
     JObj [(''type'', JStr ''session_v4''), (''data'', JStr d), (''saved'', JStr savedAt)]"

text \<open>
  Lines 276 to 286: the blob handed to the store, \<open>None\<close> when \<^verbatim>\<open>JSON.stringify\<close> or
  \<^verbatim>\<open>gzip\<close> throws. \<open>now\<close> is \<^verbatim>\<open>Date.now()\<close> and \<open>savedAt\<close> is
  \<^verbatim>\<open>new Date().toISOString()\<close>.
\<close>

definition pack ::
  "platform \<Rightarrow> (string \<times> string) list \<Rightarrow> rat \<Rightarrow> string \<Rightarrow> string \<Rightarrow> string option" where
  "pack P files now savedAt accountId =
     (case json_stringify P (session_data files now accountId) of
        None \<Rightarrow> None
      | Some json \<Rightarrow>
          (case gzip P (utf8enc P json) of
             None \<Rightarrow> None
           | Some compressed \<Rightarrow>
               (case json_stringify P (envelope (b64enc P compressed) savedAt) of
                  None \<Rightarrow> None
                | Some payload \<Rightarrow> Some (b64enc P (utf8enc P payload)))))"

text \<open>\<open>sess\<close> is the node at \<^verbatim>\<open>path.join(dataPath, accountId)\<close>, \<open>None\<close> if there is none.\<close>

definition saveSession ::
  "platform \<Rightarrow> world \<Rightarrow> store \<Rightarrow> node option \<Rightarrow> rat \<Rightarrow> string \<Rightarrow> string \<Rightarrow> string
     \<Rightarrow> save_outcome" where
  "saveSession P W st sess now savedAt dataPath accountId =
     (let sp = path_join P dataPath accountId
      in case child sess ''Default'' of
           None \<Rightarrow> save_failed [LogWarn ''No Default folder''] st
         | Some dflt \<Rightarrow>
             (let files = fst (collectEssentialFiles P sp sess)
              in if length files = 0
                 then save_failed [LogWarn ''No essential files found''] st
                 else
                   (case pack P files now savedAt accountId of
                      None \<Rightarrow> save_failed [LogError ''Save error''] st
                    | Some final \<Rightarrow>
                        if db_set_ok W
                        then \<lparr>saved = True, save_events = [DbSet accountId final],
                              save_store = st(accountId \<mapsto> final)\<rparr>
                        else save_failed [DbSet accountId final, LogError ''Save error''] st)))"

subsection \<open>A platform for closed instances\<close>

text \<open>
  A small platform on which the laws of the library functions hold: base64 and UTF-8
  are the identity, gzip puts one byte in front, the JSON text of a value is its code
  number written in unary (any other text fails to parse), a path is joined with a
  slash.
\<close>

instance json :: countable
  by countable_datatype

definition toy_text :: "json \<Rightarrow> string" where
  "toy_text v = replicate (Suc (to_nat v)) CHR ''j''"

definition toy_stringify :: "json \<Rightarrow> string option" where
  "toy_stringify v = Some (toy_text v)"

definition toy_parse :: "string \<Rightarrow> json option" where
  "toy_parse s =
     (case s of
        [] \<Rightarrow> None
      | c # r \<Rightarrow> if \<forall>x \<in> set s. x = CHR ''j'' then Some (from_nat (length r)) else None)"

definition toy_gunzip :: "bytes \<Rightarrow> bytes option" where
  "toy_gunzip z = (case z of [] \<Rightarrow> None | c # b \<Rightarrow> if c = CHR ''g'' then Some b else None)"

definition toy :: platform where
  "toy = \<lparr>b64enc = (\<lambda>b. b), b64dec = (\<lambda>s. s), buffer_from_other = (\<lambda>v. None),
     utf8enc = (\<lambda>s. s), utf8dec = (\<lambda>b. b),
     json_stringify = toy_stringify, json_parse = toy_parse,
     gzip = (\<lambda>b. Some (CHR ''g'' # b)), gunzip = toy_gunzip,
     path_join = (\<lambda>a b. a @ CHR ''/'' # b),
     path_relative = (\<lambda>base full. drop (Suc (length base)) full),
     utf16_units = map (\<lambda>c. [c])\<rparr>"

text \<open>A world in which every call succeeds, and one in which no directory can be made.\<close>

definition calm :: world where
  "calm = \<lparr>mkdir_ok = (\<lambda>p. True), write_ok = (\<lambda>p. True), db_get_ok = True,
     db_set_ok = True, db_clear_ok = True\<rparr>"

definition no_mkdir :: world where
  "no_mkdir = calm\<lparr>mkdir_ok := (\<lambda>p. False)\<rparr>"

text \<open>A world in which no file can be written.\<close>

definition no_write :: world where
  "no_write = calm\<lparr>write_ok := (\<lambda>p. False)\<rparr>"

subsection \<open>The laws of the library functions\<close>

text \<open>
  What the code relies on when it reads back what it wrote: decoding undoes encoding,
  parsing undoes \<^verbatim>\<open>JSON.stringify\<close>, \<^verbatim>\<open>gunzip\<close> undoes \<^verbatim>\<open>gzip\<close>, and none of the
  encoders turns a non-empty input into the empty string.
\<close>

definition lossless :: "platform \<Rightarrow> bool" where
  "lossless P \<longleftrightarrow>
     (\<forall>b. b64dec P (b64enc P b) = b) \<and>
     (\<forall>b. b \<noteq> [] \<longrightarrow> b64enc P b \<noteq> []) \<and>
     (\<forall>s. utf8dec P (utf8enc P s) = s) \<and>
     (\<forall>s. s \<noteq> [] \<longrightarrow> utf8enc P s \<noteq> []) \<and>
     (\<forall>v s. json_stringify P v = Some s \<longrightarrow> json_parse P s = Some v \<and> s \<noteq> []) \<and>
     (\<forall>b z. gzip P b = Some z \<longrightarrow> gunzip P z = Some b \<and> z \<noteq> [])"

subsection \<open>Counting the files written\<close>

fun is_wrote :: "event \<Rightarrow> bool" where
  "is_wrote (Wrote p c) = True"
| "is_wrote e = False"

definition count_wrote :: "event list \<Rightarrow> nat" where
  "count_wrote evs = length (filter is_wrote evs)"

subsection \<open>Sample blobs\<close>

text \<open>
  On the platform above: the blob of a snapshot with one file under a given type tag, a
  blob that is not JSON text, an envelope with no \<^verbatim>\<open>data\<close> field, one whose
  \<^verbatim>\<open>data\<close> is the empty string, and one whose inner JSON text is \<^verbatim>\<open>null\<close>.
\<close>

definition sample_files :: "(string \<times> string) list" where
  "sample_files = [(''Default/IndexedDB/000003.log'', ''0123456789'')]"

definition sample_data :: string where
  "sample_data = CHR ''g'' # toy_text (session_data sample_files 0 ''acct'')"

definition sample_blob :: "string \<Rightarrow> string" where
  "sample_blob tag =
     toy_text (JObj [(''type'', JStr tag), (''data'', JStr sample_data), (''saved'', JStr ''t'')])"

definition corrupt_blob :: string where
  "corrupt_blob = ''{not json''"

definition no_data_blob :: string where
  "no_data_blob = toy_text (JObj [(''type'', JStr ''session_v5'')])"

definition empty_data_blob :: string where
  "empty_data_blob = toy_text (JObj [(''type'', JStr ''session_v4''), (''data'', JStr [])])"

definition null_inner_blob :: string where
  "null_inner_blob = toy_text (envelope (CHR ''g'' # toy_text JNull) ''t'')"

subsection \<open>The regular files of a tree\<close>

text \<open>
  The readable regular files below a directory node, each with its full path,
  its name and its content, in the order of the walk; and those below the essential
  directories of a session tree. An entry of a snapshot is \<open>accepted\<close> from a set of files
  when it is the relative path and the base64 text of one of them that is not a lock
  file, is not empty and is within the per-file budget.
\<close>

fun node_files :: "platform \<Rightarrow> string \<Rightarrow> node \<Rightarrow> (string \<times> string \<times> bytes) list"
  and entries_files :: "platform \<Rightarrow> string \<Rightarrow> (string \<times> node) list \<Rightarrow> (string \<times> string \<times> bytes) list" where
  "node_files P dir (Dir es) = entries_files P dir es"
| "node_files P dir (File c) = []"
| "node_files P dir Unreadable = []"
| "node_files P dir BadDir = []"
| "entries_files P dir [] = []"
| "entries_files P dir ((name, n) # es) =
     (case n of
        File c \<Rightarrow> [(path_join P dir name, name, c)]
      | Unreadable \<Rightarrow> []
      | Dir sub \<Rightarrow> node_files P (path_join P dir name) n
      | BadDir \<Rightarrow> []) @ entries_files P dir es"

definition essential_files :: "platform \<Rightarrow> string \<Rightarrow> node option \<Rightarrow> (string \<times> string \<times> bytes) list" where
  "essential_files P sp sess =
     concat (map (\<lambda>d. case child (child sess ''Default'') d of
                         None \<Rightarrow> []
                       | Some n \<Rightarrow> node_files P (path_join P (path_join P sp ''Default'') d) n)
               ESSENTIAL_DIRS)"

definition accepted :: "platform \<Rightarrow> string \<Rightarrow> (string \<times> string \<times> bytes) set \<Rightarrow> string \<times> string \<Rightarrow> bool" where
  "accepted P baseDir F e \<longleftrightarrow>
     (\<exists>(full, name, c) \<in> F. fst e = path_relative P baseDir full \<and> snd e = b64enc P c \<and>
        name \<notin> set LOCK_NAMES \<and> length c \<noteq> 0 \<and> length c \<le> MAX_FILE_SIZE)"

text \<open>
  A session tree with the two files of the spec's end-to-end scenario, a lock file in
  each essential directory, an empty file, a file one byte over the per-file budget and
  a directory that is not essential.
\<close>

definition sample_tree :: node where
  "sample_tree =
     Dir [(''Default'', Dir [
       (''IndexedDB'', Dir [
          (''000003.log'', File ''0123456789''),
          (''LOCK'', File ''x''),
          (''empty'', File []),
          (''big'', File (replicate 5242881 CHR ''b''))]),
       (''Local Storage'', Dir [
          (''leveldb'', Dir [(''CURRENT'', File ''abcd''), (''SingletonLock'', File ''y'')])]),
       (''Cache'', Dir [(''junk'', File ''zzz'')])])]"



text \<open>
  The aggregate size of a list of files, and the files the collector takes when the
  budget allows: not a lock file, not empty, within the per-file budget.
\<close>

definition size_sum :: "(string \<times> string \<times> bytes) list \<Rightarrow> nat" where
  "size_sum fs = sum_list (map (\<lambda>(full, name, c). length c) fs)"

definition eligible :: "string \<times> string \<times> bytes \<Rightarrow> bool" where
  "eligible f \<longleftrightarrow> (case f of (full, name, c) \<Rightarrow> name \<notin> set LOCK_NAMES \<and> length c \<noteq> 0 \<and> length c \<le> MAX_FILE_SIZE)"

text \<open>
  The tree of the spec's end-to-end scenario, with a lock file beside the two files.
\<close>

definition scenario_tree :: node where
  "scenario_tree =
     Dir [(''Default'', Dir [
       (''IndexedDB'', Dir [(''000003.log'', File ''0123456789''), (''LOCK'', File ''x'')]),
       (''Local Storage'', Dir [(''leveldb'', Dir [(''CURRENT'', File ''abcd'')])])])]"

section \<open>Properties\<close>

subsection \<open>Helper lemmas\<close>

lemma toy_parse_text: "toy_parse (toy_text v) = Some v"
  by (simp add: toy_text_def toy_parse_def)

lemma toy_text_nonempty: "toy_text v \<noteq> []"
  by (simp add: toy_text_def)

lemma toy_parse_stringify: "toy_stringify v = Some s \<Longrightarrow> toy_parse s = Some v \<and> s \<noteq> []"
  by (auto simp: toy_stringify_def toy_parse_text toy_text_nonempty)

lemma restore_entries_no_error:
  "restore_entries P W sp es = (n, evs) \<Longrightarrow> LogError m \<notin> set evs"
  by (induction es arbitrary: n evs)
     (auto simp: Let_def split: prod.splits option.splits if_splits)

lemma toy_lossless: "lossless toy"
  by (auto simp: lossless_def toy_def toy_gunzip_def dest: toy_parse_stringify)

lemma pack_toy: "\<exists>final. pack toy files now savedAt a = Some final"
  by (simp add: pack_def toy_def toy_stringify_def)

lemma pack_decode:
  assumes "lossless P" and "pack P files now savedAt a = Some final"
  shows "final \<noteq> [] \<and> (\<exists>d. d \<noteq> [] \<and>
           json_parse P (utf8dec P (b64dec P final)) = Some (envelope d savedAt) \<and>
           decode_files P (JStr d) = Some (Some (JObj (map (\<lambda>(k, v). (k, JStr v)) files))))"
proof -
  from assms(2) obtain json compressed payload where
    j: "json_stringify P (session_data files now a) = Some json" and
    z: "gzip P (utf8enc P json) = Some compressed" and
    p: "json_stringify P (envelope (b64enc P compressed) savedAt) = Some payload" and
    f: "final = b64enc P (utf8enc P payload)"
    by (auto simp: pack_def split: option.splits)
  from assms(1) j have j': "json_parse P json = Some (session_data files now a)"
    by (simp add: lossless_def)
  from assms(1) z have z': "gunzip P compressed = Some (utf8enc P json)" "compressed \<noteq> []"
    by (simp_all add: lossless_def)
  from assms(1) p have p': "json_parse P payload = Some (envelope (b64enc P compressed) savedAt)"
    "payload \<noteq> []" by (simp_all add: lossless_def)
  from assms(1) have b: "\<And>x. b64dec P (b64enc P x) = x" "\<And>x. utf8dec P (utf8enc P x) = x"
    "\<And>x. x \<noteq> [] \<Longrightarrow> b64enc P x \<noteq> []" "\<And>x. x \<noteq> [] \<Longrightarrow> utf8enc P x \<noteq> []"
    by (simp_all add: lossless_def)
  have "final \<noteq> []" using f p'(2) b(3,4) by simp
  moreover have "b64enc P compressed \<noteq> []" using z'(2) b(3) by simp
  moreover have "json_parse P (utf8dec P (b64dec P final)) = Some (envelope (b64enc P compressed) savedAt)"
    using f p'(1) b(1,2) by simp
  moreover have "decode_files P (JStr (b64enc P compressed)) =
      Some (Some (JObj (map (\<lambda>(k, v). (k, JStr v)) files)))"
    using b(1,2) z'(1) j' by (simp add: decode_files_def buffer_from_b64_def session_data_def)
  ultimately show ?thesis by blast
qed

lemma restore_entries_no_clear:
  "restore_entries P W sp es = (n, evs) \<Longrightarrow> DbClear a \<notin> set evs"
  by (induction es arbitrary: n evs)
     (auto simp: Let_def split: prod.splits option.splits if_splits)

lemma preRestoreSession_decoded:
  assumes "mkdir_ok W dataPath" and "mkdir_ok W (path_join P dataPath accountId)"
    and "db_get_ok W" and "st accountId = Some blob" and "blob \<noteq> []"
    and "json_parse P (utf8dec P (b64dec P blob)) = Some payload"
    and "js_get payload ''data'' = Some d" and "truthy d"
    and "decode_files P (the d) = Some files"
  shows "preRestoreSession P W st accountId dataPath =
     (if \<not> truthy files \<or> object_entries P (the files) = []
      then \<lparr>restored = False, sessionPath = path_join P dataPath accountId,
            events = [DbGet accountId, LogWarn ''Empty session''], store_after = st\<rparr>
      else \<lparr>restored = True, sessionPath = path_join P dataPath accountId,
            events = DbGet accountId #
              snd (restore_entries P W (path_join P dataPath accountId) (object_entries P (the files))) @
              [LogRestored
                 (fst (restore_entries P W (path_join P dataPath accountId) (object_entries P (the files))))
                 (length (object_entries P (the files)))],
            store_after = st\<rparr>)"
  using assms by (simp add: preRestoreSession_def Let_def split: prod.splits)

lemma restore_entries_count:
  "fst (restore_entries P W sp es) = count_wrote (snd (restore_entries P W sp es))"
  by (induction es)
     (auto simp: Let_def count_wrote_def split: prod.splits option.splits if_splits)

lemma toy_fields [simp]:
  "b64dec toy = (\<lambda>s. s)" "b64enc toy = (\<lambda>s. s)" "utf8dec toy = (\<lambda>s. s)" "utf8enc toy = (\<lambda>s. s)"
  "json_parse toy = toy_parse" "json_stringify toy = toy_stringify" "gunzip toy = toy_gunzip"
  "gzip toy = (\<lambda>b. Some (CHR ''g'' # b))" "path_join toy = (\<lambda>a b. a @ CHR ''/'' # b)"
  "buffer_from_other toy = (\<lambda>v. None)"
  by (simp_all add: toy_def)

lemma calm_fields [simp]:
  "mkdir_ok calm p" "write_ok calm p" "db_get_ok calm" "db_set_ok calm" "db_clear_ok calm"
  by (simp_all add: calm_def)

lemma sample_blob_nonempty: "sample_blob tag \<noteq> []"
  by (simp add: sample_blob_def toy_text_nonempty)

lemma sample_blob_parse:
  "json_parse toy (utf8dec toy (b64dec toy (sample_blob tag))) =
     Some (JObj ((''type'', JStr tag) # [(''data'', JStr sample_data), (''saved'', JStr ''t'')]))"
  by (simp add: sample_blob_def toy_parse_text)

lemma sample_data_decode:
  "gunzip toy (b64dec toy sample_data) = Some (toy_text (session_data sample_files 0 ''acct''))"
  "json_parse toy (utf8dec toy (toy_text (session_data sample_files 0 ''acct''))) =
     Some (session_data sample_files 0 ''acct'')"
  "sample_data \<noteq> []"
  by (simp_all add: sample_data_def toy_gunzip_def toy_parse_text)

lemma count_wrote_simps [simp]:
  "count_wrote [] = 0"
  "count_wrote (e # evs) = (if is_wrote e then Suc (count_wrote evs) else count_wrote evs)"
  "count_wrote (evs @ evs') = count_wrote evs + count_wrote evs'"
  by (simp_all add: count_wrote_def)

lemma restore_entries_length:
  "fst (restore_entries P W sp es) \<le> length es"
  by (induction es) (auto simp: Let_def split: prod.splits option.splits if_splits)

lemma sample_run:
  "preRestoreSession toy W [''acct'' \<mapsto> sample_blob tag] ''acct'' ''tmp'' =
     (if mkdir_ok W ''tmp'' \<and> mkdir_ok W ''tmp/acct'' \<and> db_get_ok W
      then \<lparr>restored = True, sessionPath = ''tmp/acct'',
            events = [DbGet ''acct'',
              if write_ok W ''tmp/acct/Default/IndexedDB/000003.log''
              then Wrote ''tmp/acct/Default/IndexedDB/000003.log'' ''0123456789''
              else LogWarn ''Default/IndexedDB/000003.log'',
              LogRestored (if write_ok W ''tmp/acct/Default/IndexedDB/000003.log'' then 1 else 0) 1],
            store_after = [''acct'' \<mapsto> sample_blob tag]\<rparr>
      else caught ''tmp/acct'' (if mkdir_ok W ''tmp'' \<and> mkdir_ok W ''tmp/acct'' then [DbGet ''acct''] else [])
             [''acct'' \<mapsto> sample_blob tag])"
  using sample_blob_nonempty [of tag] sample_blob_parse [of tag] sample_data_decode
  by (simp add: preRestoreSession_def decode_files_def buffer_from_b64_def session_data_def
        sample_files_def)

lemma empty_data_run:
  "preRestoreSession toy calm [''acct'' \<mapsto> empty_data_blob] ''acct'' ''tmp'' =
     \<lparr>restored = False, sessionPath = ''tmp/acct'',
      events = [DbGet ''acct'', LogWarn ''Unknown format''],
      store_after = [''acct'' \<mapsto> empty_data_blob]\<rparr>"
  by (simp add: preRestoreSession_def empty_data_blob_def toy_parse_text toy_text_nonempty)

lemma null_inner_run:
  "preRestoreSession toy calm [''acct'' \<mapsto> null_inner_blob] ''acct'' ''tmp'' =
     \<lparr>restored = False, sessionPath = ''tmp/acct'',
      events = [DbGet ''acct'', LogError ''Decompression failed'', DbClear ''acct''],
      store_after = [''acct'' \<mapsto> null_inner_blob](''acct'' := None)\<rparr>"
  by (simp add: preRestoreSession_def null_inner_blob_def toy_parse_text toy_text_nonempty
        envelope_def decode_files_def buffer_from_b64_def toy_gunzip_def clear_and_fail_def)

lemma set_update_subset: "set (AList.update k v al) \<subseteq> insert (k, v) (set al)"
  by (induction al) auto

lemma collect_invariant:
  assumes step: "\<And>dir name c s.
      I s \<Longrightarrow> (path_join P dir name, name, c) \<in> F \<Longrightarrow> name \<notin> set LOCK_NAMES \<Longrightarrow>
      length c \<noteq> 0 \<Longrightarrow> length c \<le> MAX_FILE_SIZE \<Longrightarrow> snd s \<le> MAX_TOTAL_SIZE \<Longrightarrow>
      I (AList.update (path_relative P baseDir (path_join P dir name)) (b64enc P c) (fst s),
         snd s + length c)"
  shows "I s \<Longrightarrow> set (node_files P dir n) \<subseteq> F \<Longrightarrow> I (collectDirFiles P dir baseDir n s)"
    and "I s \<Longrightarrow> set (entries_files P dir es) \<subseteq> F \<Longrightarrow> I (collect_entries P dir baseDir es s)"
  using step
proof (induction P dir baseDir n s and P dir baseDir es s rule: collectDirFiles_collect_entries.induct)
  case (6 P dir baseDir name n es s)
  note IH = "6.IH" and I = "6.prems"(1) and sub = "6.prems"(2) and st = "6.prems"(3)
  have rest: "set (entries_files P dir es) \<subseteq> F" using sub by auto
  show ?case
  proof (cases "snd s > MAX_TOTAL_SIZE")
    case True
    then show ?thesis using I by simp
  next
    case nb: False
    show ?thesis
    proof (cases n)
      case (File c)
      have in_F: "(path_join P dir name, name, c) \<in> F" using sub File by simp
      consider (lock) "name \<in> set LOCK_NAMES"
        | (skip) "name \<notin> set LOCK_NAMES" "length c = 0 \<or> MAX_FILE_SIZE < length c"
        | (add) "name \<notin> set LOCK_NAMES" "\<not> (length c = 0 \<or> MAX_FILE_SIZE < length c)"
        by blast
      then show ?thesis
      proof cases
        case lock
        from IH(1) [OF nb refl refl File lock I rest st] nb File lock
        show ?thesis by (simp add: Let_def)
      next
        case skip
        from IH(2) [OF nb refl refl File skip I rest st] nb File skip
        show ?thesis by (simp add: Let_def)
      next
        case add
        have "I (AList.update (path_relative P baseDir (path_join P dir name)) (b64enc P c) (fst s),
                 snd s + length c)"
          using st [OF I in_F add(1)] add(2) nb by simp
        from IH(3) [OF nb refl refl File add this rest st] nb File add
        show ?thesis by (simp add: Let_def)
      qed
    next
      case Unreadable
      from IH(4) [OF nb refl refl Unreadable I rest st] nb Unreadable
      show ?thesis by (simp add: Let_def)
    next
      case (Dir sub')
      have below: "set (node_files P (path_join P dir name) n) \<subseteq> F" using sub Dir by simp
      from IH(5) [OF nb refl refl Dir I below st]
      have "I (collectDirFiles P (path_join P dir name) baseDir n s)" .
      from IH(6) [OF nb refl refl Dir this rest st] nb Dir
      show ?thesis by (simp add: Let_def)
    next
      case BadDir
      from IH(8) [OF nb refl refl BadDir _ rest st] I nb BadDir
      show ?thesis by (simp add: Let_def)
    qed
  qed
qed simp_all

lemma collect_accepted:
  assumes "\<forall>e \<in> set (fst s). accepted P baseDir F e" and "set (node_files P dir n) \<subseteq> F"
  shows "\<forall>e \<in> set (fst (collectDirFiles P dir baseDir n s)). accepted P baseDir F e"
proof (rule collect_invariant [where I = "\<lambda>s. \<forall>e \<in> set (fst s). accepted P baseDir F e" and F = F])
  fix dir name c and s :: cstate
  assume a: "\<forall>e \<in> set (fst s). accepted P baseDir F e" "(path_join P dir name, name, c) \<in> F"
    "name \<notin> set LOCK_NAMES" "length c \<noteq> 0" "length c \<le> MAX_FILE_SIZE"
  show "\<forall>e \<in> set (fst (AList.update (path_relative P baseDir (path_join P dir name)) (b64enc P c) (fst s),
         snd s + length c)). accepted P baseDir F e"
  proof
    fix e
    assume "e \<in> set (fst (AList.update (path_relative P baseDir (path_join P dir name)) (b64enc P c) (fst s),
         snd s + length c))"
    then have "e = (path_relative P baseDir (path_join P dir name), b64enc P c) \<or> e \<in> set (fst s)"
      using set_update_subset by fastforce
    then show "accepted P baseDir F e"
    proof
      assume "e = (path_relative P baseDir (path_join P dir name), b64enc P c)"
      then show ?thesis
        unfolding accepted_def using a(2-5)
        by (intro bexI [of _ "(path_join P dir name, name, c)"]) auto
    next
      assume "e \<in> set (fst s)"
      then show ?thesis using a(1) by blast
    qed
  qed
qed (use assms in auto)


lemma collect_essential_accepted:
  assumes "\<forall>e \<in> set (fst s). accepted P sp F e"
    and "\<forall>d \<in> set ds. \<forall>n. child dflt d = Some n \<longrightarrow> set (node_files P (path_join P dp d) n) \<subseteq> F"
  shows "\<forall>e \<in> set (fst (collect_essential P sp dp dflt ds s)). accepted P sp F e"
  using assms
proof (induction ds arbitrary: s)
  case Nil
  then show ?case by simp
next
  case (Cons d ds)
  show ?case
  proof (cases "child dflt d")
    case None
    then show ?thesis using Cons by simp
  next
    case (Some n)
    have "set (node_files P (path_join P dp d) n) \<subseteq> F" using Cons.prems(2) Some by simp
    from collect_accepted [of "(fst s, 0)" P sp F, OF _ this] Cons.prems(1)
    have "\<forall>e \<in> set (fst (collectDirFiles P (path_join P dp d) sp n (fst s, 0))). accepted P sp F e"
      by simp
    then have "\<forall>e \<in> set (fst (collect_essential P sp dp dflt ds
        (fst (collectDirFiles P (path_join P dp d) sp n (fst s, 0)),
         snd s + snd (collectDirFiles P (path_join P dp d) sp n (fst s, 0))))). accepted P sp F e"
      using Cons.prems(2) by (intro Cons.IH) auto
    then show ?thesis using Some by (simp add: Let_def)
  qed
qed

lemma sample_collect:
  "collectEssentialFiles toy ''tmp/acct'' (Some sample_tree) =
     ([(''Default/IndexedDB/000003.log'', ''0123456789''),
       (''Default/Local Storage/leveldb/CURRENT'', ''abcd'')], 14)"
  by (simp add: collectEssentialFiles_def sample_tree_def ESSENTIAL_DIRS_def LOCK_NAMES_def
        MAX_TOTAL_SIZE_def MAX_FILE_SIZE_def toy_def)


lemma collect_keys_kept:
  assumes "k \<in> fst ` set (fst s)"
  shows "k \<in> fst ` set (fst (collectDirFiles P dir baseDir n s))"
    and "k \<in> fst ` set (fst (collect_entries P dir baseDir es s))"
proof -
  have step: "\<And>dir name c s. k \<in> fst ` set (fst (s :: cstate)) \<Longrightarrow>
      k \<in> fst ` set (fst (AList.update (path_relative P baseDir (path_join P dir name)) (b64enc P c) (fst s),
         snd s + length c))"
    by (simp add: dom_update)
  show "k \<in> fst ` set (fst (collectDirFiles P dir baseDir n s))"
    by (rule collect_invariant(1) [where I = "\<lambda>s. k \<in> fst ` set (fst s)" and F = UNIV])
       (use assms step in auto)
  show "k \<in> fst ` set (fst (collect_entries P dir baseDir es s))"
    by (rule collect_invariant(2) [where I = "\<lambda>s. k \<in> fst ` set (fst s)" and F = UNIV])
       (use assms step in auto)
qed

lemma collect_essential_keys_kept:
  "k \<in> fst ` set (fst s) \<Longrightarrow> k \<in> fst ` set (fst (collect_essential P sp dp dflt ds s))"
  by (induction ds arbitrary: s) (auto simp: Let_def collect_keys_kept(1) split: option.splits)





lemma size_sum_simps [simp]:
  "size_sum [] = 0" "size_sum ((full, name, c) # fs) = length c + size_sum fs"
  "size_sum (fs @ gs) = size_sum fs + size_sum gs"
  by (simp_all add: size_sum_def)

lemma collect_complete:
  "snd s + size_sum (node_files P dir n) \<le> MAX_TOTAL_SIZE \<Longrightarrow>
     snd (collectDirFiles P dir baseDir n s) \<le> snd s + size_sum (node_files P dir n) \<and>
     (\<forall>f \<in> set (node_files P dir n). eligible f \<longrightarrow>
        path_relative P baseDir (fst f) \<in> fst ` set (fst (collectDirFiles P dir baseDir n s)))"
  "snd s + size_sum (entries_files P dir es) \<le> MAX_TOTAL_SIZE \<Longrightarrow>
     snd (collect_entries P dir baseDir es s) \<le> snd s + size_sum (entries_files P dir es) \<and>
     (\<forall>f \<in> set (entries_files P dir es). eligible f \<longrightarrow>
        path_relative P baseDir (fst f) \<in> fst ` set (fst (collect_entries P dir baseDir es s)))"
proof (induction P dir baseDir n s and P dir baseDir es s rule: collectDirFiles_collect_entries.induct)
  case (6 P dir baseDir name n es s)
  note IH = "6.IH" and bud = "6.prems"
  have nb: "\<not> MAX_TOTAL_SIZE < snd s" using bud by simp
  show ?case
  proof (cases n)
    case (File c)
    have b': "snd s + length c + size_sum (entries_files P dir es) \<le> MAX_TOTAL_SIZE"
      using bud File by simp
    then have b0: "snd s + size_sum (entries_files P dir es) \<le> MAX_TOTAL_SIZE" by simp
    consider (lock) "name \<in> set LOCK_NAMES"
      | (skip) "name \<notin> set LOCK_NAMES" "length c = 0 \<or> MAX_FILE_SIZE < length c"
      | (add) "name \<notin> set LOCK_NAMES" "\<not> (length c = 0 \<or> MAX_FILE_SIZE < length c)"
      by blast
    then show ?thesis
    proof cases
      case lock
      from IH(1) [OF nb refl refl File lock b0] nb File lock
      show ?thesis by (auto simp: Let_def eligible_def)
    next
      case skip
      from IH(2) [OF nb refl refl File skip b0] nb File skip
      show ?thesis by (auto simp: Let_def eligible_def)
    next
      case add
      let ?k = "path_relative P baseDir (path_join P dir name)"
      let ?s' = "(AList.update ?k (b64enc P c) (fst s), snd s + length c)"
      have "snd ?s' + size_sum (entries_files P dir es) \<le> MAX_TOTAL_SIZE" using b' by simp
      from IH(3) [OF nb refl refl File add this]
      have r: "snd (collect_entries P dir baseDir es ?s') \<le> snd ?s' + size_sum (entries_files P dir es)"
        "\<forall>f \<in> set (entries_files P dir es). eligible f \<longrightarrow>
           path_relative P baseDir (fst f) \<in> fst ` set (fst (collect_entries P dir baseDir es ?s'))"
        by blast+
      have "?k \<in> fst ` set (fst ?s')" by (simp add: dom_update)
      then have k: "?k \<in> fst ` set (fst (collect_entries P dir baseDir es ?s'))"
        by (rule collect_keys_kept(2))
      have e: "collect_entries P dir baseDir ((name, n) # es) s = collect_entries P dir baseDir es ?s'"
        using nb File add by (simp add: Let_def)
      show ?thesis
        unfolding e using r k File by auto
    qed
  next
    case Unreadable
    have b0: "snd s + size_sum (entries_files P dir es) \<le> MAX_TOTAL_SIZE" using bud Unreadable by simp
    from IH(4) [OF nb refl refl Unreadable b0] nb Unreadable
    show ?thesis by (auto simp: Let_def)
  next
    case (Dir sub)
    let ?d = "path_join P dir name"
    let ?s1 = "collectDirFiles P ?d baseDir n s"
    have b: "snd s + size_sum (node_files P ?d n) + size_sum (entries_files P dir es) \<le> MAX_TOTAL_SIZE"
      using bud Dir by simp
    then have "snd s + size_sum (node_files P ?d n) \<le> MAX_TOTAL_SIZE" by simp
    from IH(5) [OF nb refl refl Dir this]
    have r1: "snd ?s1 \<le> snd s + size_sum (node_files P ?d n)"
      "\<forall>f \<in> set (node_files P ?d n). eligible f \<longrightarrow> path_relative P baseDir (fst f) \<in> fst ` set (fst ?s1)"
      by blast+
    have "snd ?s1 + size_sum (entries_files P dir es) \<le> MAX_TOTAL_SIZE" using r1(1) b by simp
    from IH(6) [OF nb refl refl Dir this]
    have r2: "snd (collect_entries P dir baseDir es ?s1) \<le> snd ?s1 + size_sum (entries_files P dir es)"
      "\<forall>f \<in> set (entries_files P dir es). eligible f \<longrightarrow>
         path_relative P baseDir (fst f) \<in> fst ` set (fst (collect_entries P dir baseDir es ?s1))"
      by blast+
    have e: "collect_entries P dir baseDir ((name, n) # es) s = collect_entries P dir baseDir es ?s1"
      using nb Dir by (simp add: Let_def)
    have kept: "\<forall>f \<in> set (node_files P ?d n). eligible f \<longrightarrow>
        path_relative P baseDir (fst f) \<in> fst ` set (fst (collect_entries P dir baseDir es ?s1))"
      using r1(2) collect_keys_kept(2) by blast
    show ?thesis
      unfolding e using r1(1) r2 kept Dir by auto
  next
    case BadDir
    have b0: "snd (collectDirFiles P (path_join P dir name) baseDir n s) + size_sum (entries_files P dir es) \<le> MAX_TOTAL_SIZE"
      using bud BadDir by simp
    from IH(8) [OF nb refl refl BadDir b0] nb BadDir
    show ?thesis by (auto simp: Let_def)
  qed
qed simp_all


lemma collect_essential_complete:
  assumes "\<forall>d \<in> set ds. \<forall>n. child dflt d = Some n \<longrightarrow>
             size_sum (node_files P (path_join P dp d) n) \<le> MAX_TOTAL_SIZE"
    and "d \<in> set ds" and "child dflt d = Some n"
    and "f \<in> set (node_files P (path_join P dp d) n)" and "eligible f"
  shows "path_relative P sp (fst f) \<in> fst ` set (fst (collect_essential P sp dp dflt ds s))"
  using assms
proof (induction ds arbitrary: s)
  case Nil
  then show ?case by simp
next
  case (Cons d' ds)
  show ?case
  proof (cases "child dflt d'")
    case None
    then have "d \<noteq> d'" using Cons.prems(3) by auto
    then show ?thesis using None Cons by simp
  next
    case (Some n')
    let ?X = "collectDirFiles P (path_join P dp d') sp n' (fst s, 0)"
    let ?s1 = "(fst ?X, snd s + snd ?X)"
    have e: "collect_essential P sp dp dflt (d' # ds) s = collect_essential P sp dp dflt ds ?s1"
      using Some by (simp add: Let_def)
    show ?thesis
    proof (cases "d = d'")
      case True
      then have n: "n' = n" using Some Cons.prems(3) by simp
      have "size_sum (node_files P (path_join P dp d') n') \<le> MAX_TOTAL_SIZE"
        using Cons.prems(1) Some by simp
      then have "snd (fst s, 0 :: nat) + size_sum (node_files P (path_join P dp d') n') \<le> MAX_TOTAL_SIZE"
        by simp
      from collect_complete(1) [OF this, of sp] Cons.prems(4,5) True n
      have "path_relative P sp (fst f) \<in> fst ` set (fst ?X)" by blast
      then have "path_relative P sp (fst f) \<in> fst ` set (fst (collect_essential P sp dp dflt ds ?s1))"
        by (intro collect_essential_keys_kept) simp
      then show ?thesis by (simp only: e)
    next
      case False
      then have "d \<in> set ds" using Cons.prems(2) by simp
      from Cons.IH [OF _ this Cons.prems(3,4,5), of ?s1] Cons.prems(1)
      show ?thesis by (simp only: e) simp
    qed
  qed
qed

lemma size_sum_member:
  "size_sum (concat xss) \<le> m \<Longrightarrow> xs \<in> set xss \<Longrightarrow> size_sum xs \<le> m"
  by (induction xss) auto

lemma restore_entries_all_written:
  assumes "\<forall>p. write_ok W p"
  shows "restore_entries P W sp (map (\<lambda>(k, v). (k, JStr v)) files) =
     (length files, map (\<lambda>(k, v). Wrote (path_join P sp k) (b64dec P v)) files)"
  using assms by (induction files) (auto simp: Let_def buffer_from_b64_def)

lemma collected_accepted:
  "\<forall>e \<in> set (fst (collectEssentialFiles P sp sess)).
      accepted P sp (set (essential_files P sp sess)) e"
  unfolding collectEssentialFiles_def
  by (rule collect_essential_accepted) (auto simp: essential_files_def)


lemma essential_files_member:
  assumes "f \<in> set (essential_files P sp sess)"
  obtains d n where "d \<in> set ESSENTIAL_DIRS" and "child (child sess ''Default'') d = Some n"
    and "f \<in> set (node_files P (path_join P (path_join P sp ''Default'') d) n)"
  using assms by (auto simp: essential_files_def split: option.splits) (metis (no_types))

lemma essential_files_dir_size:
  assumes "size_sum (essential_files P sp sess) \<le> m" and "d \<in> set ESSENTIAL_DIRS"
    and "child (child sess ''Default'') d = Some n"
  shows "size_sum (node_files P (path_join P (path_join P sp ''Default'') d) n) \<le> m"
proof (rule size_sum_member [OF assms(1) [unfolded essential_files_def]])
  show "node_files P (path_join P (path_join P sp ''Default'') d) n \<in>
      set (map (\<lambda>d. case child (child sess ''Default'') d of None \<Rightarrow> []
             | Some n \<Rightarrow> node_files P (path_join P (path_join P sp ''Default'') d) n) ESSENTIAL_DIRS)"
    using assms(2,3) by force
qed

lemma collected_complete:
  assumes "size_sum (essential_files P sp sess) \<le> MAX_TOTAL_SIZE"
    and "f \<in> set (essential_files P sp sess)" and "eligible f"
  shows "path_relative P sp (fst f) \<in> fst ` set (fst (collectEssentialFiles P sp sess))"
proof -
  from assms(2) obtain d n where d: "d \<in> set ESSENTIAL_DIRS"
    "child (child sess ''Default'') d = Some n"
    "f \<in> set (node_files P (path_join P (path_join P sp ''Default'') d) n)"
    by (rule essential_files_member)
  have "\<forall>d \<in> set ESSENTIAL_DIRS. \<forall>n. child (child sess ''Default'') d = Some n \<longrightarrow>
      size_sum (node_files P (path_join P (path_join P sp ''Default'') d) n) \<le> MAX_TOTAL_SIZE"
    using essential_files_dir_size [OF assms(1)] by blast
  from collect_essential_complete [OF this d assms(3)]
  show ?thesis by (simp add: collectEssentialFiles_def)
qed

lemma saveSession_ok:
  assumes "child sess ''Default'' \<noteq> None"
    and "fst (collectEssentialFiles P (path_join P dataPath accountId) sess) \<noteq> []"
    and "pack P (fst (collectEssentialFiles P (path_join P dataPath accountId) sess)) now savedAt accountId = Some final"
    and "db_set_ok W"
  shows "saveSession P W st sess now savedAt dataPath accountId =
     \<lparr>saved = True, save_events = [DbSet accountId final], save_store = st(accountId \<mapsto> final)\<rparr>"
  using assms by (auto simp: saveSession_def Let_def)

lemma restore_packed:
  assumes "lossless P" and "mkdir_ok W dataPath" and "mkdir_ok W (path_join P dataPath accountId)"
    and "db_get_ok W" and "\<forall>p. write_ok W p"
    and "pack P files now savedAt a = Some final" and "files \<noteq> []"
    and "st accountId = Some final"
  shows "preRestoreSession P W st accountId dataPath =
     \<lparr>restored = True, sessionPath = path_join P dataPath accountId,
      events = DbGet accountId #
        map (\<lambda>(k, v). Wrote (path_join P (path_join P dataPath accountId) k) (b64dec P v)) files @
        [LogRestored (length files) (length files)],
      store_after = st\<rparr>"
proof -
  from pack_decode [OF assms(1,6)] obtain d where
    d: "final \<noteq> []" "d \<noteq> []"
       "json_parse P (utf8dec P (b64dec P final)) = Some (envelope d savedAt)"
       "decode_files P (JStr d) = Some (Some (JObj (map (\<lambda>(k, v). (k, JStr v)) files)))"
    by blast
  have g: "js_get (envelope d savedAt) ''data'' = Some (Some (JStr d))"
    by (simp add: envelope_def)
  have t: "truthy (Some (JStr d))" using d(2) by simp
  have df: "decode_files P (the (Some (JStr d))) = Some (Some (JObj (map (\<lambda>(k, v). (k, JStr v)) files)))"
    using d(4) by simp
  show ?thesis
    using preRestoreSession_decoded [of W dataPath P accountId st final "envelope d savedAt"
        "Some (JStr d)" "Some (JObj (map (\<lambda>(k, v). (k, JStr v)) files))"]
      assms(2,3,4,7,8) d(1,3) g t df restore_entries_all_written [OF assms(5)]
    by simp
qed


lemma scenario_collect:
  "collectEssentialFiles toy ''tmp/acct'' (Some scenario_tree) =
     ([(''Default/IndexedDB/000003.log'', ''0123456789''),
       (''Default/Local Storage/leveldb/CURRENT'', ''abcd'')], 14)"
  by (simp add: collectEssentialFiles_def scenario_tree_def ESSENTIAL_DIRS_def LOCK_NAMES_def
        MAX_TOTAL_SIZE_def MAX_FILE_SIZE_def toy_def)

lemma scenario_essential_files:
  "essential_files toy ''tmp/acct'' (Some scenario_tree) =
     [(''tmp/acct/Default/IndexedDB/000003.log'', ''000003.log'', ''0123456789''),
      (''tmp/acct/Default/IndexedDB/LOCK'', ''LOCK'', ''x''),
      (''tmp/acct/Default/Local Storage/leveldb/CURRENT'', ''CURRENT'', ''abcd'')]"
  by (simp add: essential_files_def scenario_tree_def ESSENTIAL_DIRS_def toy_def)

lemma restore_entries_writes:
  "(k, JStr v) \<in> set es \<Longrightarrow> write_ok W (path_join P sp k) \<Longrightarrow>
     Wrote (path_join P sp k) (b64dec P v) \<in> set (snd (restore_entries P W sp es))"
  by (induction es)
     (auto simp: Let_def buffer_from_b64_def split: prod.splits option.splits if_splits)

lemma preRestoreSession_error_iff:
  "(\<exists>m. LogError m \<in> set (events (preRestoreSession P W st a d))) \<longleftrightarrow>
      \<not> mkdir_ok W d \<or> \<not> mkdir_ok W (path_join P d a) \<or> \<not> db_get_ok W \<or>
      (\<exists>blob. st a = Some blob \<and> blob \<noteq> [] \<and>
         (json_parse P (utf8dec P (b64dec P blob)) = None \<or>
          (\<exists>payload. json_parse P (utf8dec P (b64dec P blob)) = Some payload \<and>
             (js_get payload ''data'' = None \<or>
              (\<exists>dv. js_get payload ''data'' = Some dv \<and> truthy dv \<and>
                 decode_files P (the dv) = None)))))"
proof (cases "mkdir_ok W d \<and> mkdir_ok W (path_join P d a) \<and> db_get_ok W")
  case False
  then show ?thesis
    by (auto simp: preRestoreSession_def Let_def caught_def)
next
  case ok: True
  show ?thesis
  proof (cases "st a")
    case None
    then show ?thesis using ok by (simp add: preRestoreSession_def Let_def)
  next
    case (Some blob)
    show ?thesis
    proof (cases "blob = []")
      case True
      then show ?thesis using ok Some by (simp add: preRestoreSession_def Let_def)
    next
      case ne: False
      show ?thesis
      proof (cases "json_parse P (utf8dec P (b64dec P blob))")
        case None
        then show ?thesis using ok Some ne
          by (auto simp: preRestoreSession_def Let_def clear_and_fail_def caught_def)
      next
        case payload: (Some payload)
        show ?thesis
        proof (cases "js_get payload ''data''")
          case None
          then show ?thesis using ok Some ne payload
            by (auto simp: preRestoreSession_def Let_def caught_def)
        next
          case dv: (Some dv)
          show ?thesis
          proof (cases "truthy dv")
            case False
            then show ?thesis using ok Some ne payload dv
              by (simp add: preRestoreSession_def Let_def)
          next
            case tr: True
            show ?thesis
            proof (cases "decode_files P (the dv)")
              case None
              then show ?thesis using ok Some ne payload dv tr
                by (auto simp: preRestoreSession_def Let_def clear_and_fail_def caught_def)
            next
              case files: (Some files)
              have "\<And>m. LogError m \<notin> set (snd (restore_entries P W (path_join P d a)
                  (object_entries P (the files))))"
                using restore_entries_no_error [OF surjective_pairing] .
              then show ?thesis
                using ok Some ne payload dv tr files
                by (simp add: preRestoreSession_decoded [of W d P a st blob payload dv files])
            qed
          qed
        qed
      qed
    qed
  qed
qed

lemma preRestoreSession_error_not_restored:
  "(\<exists>m. LogError m \<in> set (events (preRestoreSession P W st a d))) \<Longrightarrow>
      \<not> restored (preRestoreSession P W st a d)"
  by (auto simp: preRestoreSession_def Let_def caught_def clear_and_fail_def
        dest: restore_entries_no_error split: option.splits prod.splits if_splits)

lemma preRestoreSession_call_None:
  "preRestoreSession_call P W st accountId dataPath = None \<longleftrightarrow>
      \<not> ((\<exists>a. accountId = Some (JStr a)) \<and> (dataPath = None \<or> (\<exists>d. dataPath = Some (JStr d))))"
proof (cases dataPath)
  case None
  then show ?thesis
    by (cases accountId) (auto simp: preRestoreSession_call_def split: json.splits)
next
  case (Some v)
  then show ?thesis
    by (cases v; cases accountId) (auto simp: preRestoreSession_call_def split: json.splits)
qed

subsection \<open>The presence check\<close>

text \<open>
  C8. \<^verbatim>\<open>hasPreRestoredSession(sessionPath)\<close> is true if and only if
  \<^verbatim>\<open>Default/IndexedDB\<close> exists under the session path and listing it succeeds with at
  least one name. A path that does not exist, and a listing that throws, give false.
  The function reads the tree and returns a boolean: it has no other effect.
\<close>

theorem hasPreRestoredSession_iff:
  "hasPreRestoredSession sess =
     (\<exists>indexedDb names. child (child sess ''Default'') ''IndexedDB'' = Some indexedDb \<and>
        readdir indexedDb = Some names \<and> names \<noteq> [])"
  by (auto simp: hasPreRestoredSession_def split: option.splits)

subsection \<open>When restore throws\<close>

text \<open>
  C9, as amended. Called with a string account identifier and a data path that is a
  string or undefined, \<^verbatim>\<open>preRestoreSession\<close> never throws: it returns an object whose
  \<^verbatim>\<open>sessionPath\<close> is the join of the data path and the account identifier. With any
  other argument it throws. An exception ends in a \<^verbatim>\<open>catch\<close> block that returns
  (each of which calls \<^verbatim>\<open>logger.error\<close>) exactly when a directory cannot be made, the store's
  get throws, the blob is not JSON, the envelope is \<^verbatim>\<open>null\<close>, or its truthy
  \<^verbatim>\<open>data\<close> cannot be decoded; then \<^verbatim>\<open>restored\<close> is false.
\<close>

theorem preRestoreSession_call_total:
  "preRestoreSession_call P W st (Some (JStr a)) (Some (JStr d)) = Some (preRestoreSession P W st a d) \<and>
   preRestoreSession_call P W st (Some (JStr a)) None =
     Some (preRestoreSession P W st a ''./wa-sessions-temp'') \<and>
   (preRestoreSession_call P W st accountId dataPath = None \<longleftrightarrow>
      \<not> ((\<exists>a. accountId = Some (JStr a)) \<and> (dataPath = None \<or> (\<exists>d. dataPath = Some (JStr d))))) \<and>
   sessionPath (preRestoreSession P W st a d) = path_join P d a \<and>
   ((\<exists>m. LogError m \<in> set (events (preRestoreSession P W st a d))) \<longleftrightarrow>
      \<not> mkdir_ok W d \<or> \<not> mkdir_ok W (path_join P d a) \<or> \<not> db_get_ok W \<or>
      (\<exists>blob. st a = Some blob \<and> blob \<noteq> [] \<and>
         (json_parse P (utf8dec P (b64dec P blob)) = None \<or>
          (\<exists>payload. json_parse P (utf8dec P (b64dec P blob)) = Some payload \<and>
             (js_get payload ''data'' = None \<or>
              (\<exists>dv. js_get payload ''data'' = Some dv \<and> truthy dv \<and>
                 decode_files P (the dv) = None)))))) \<and>
   ((\<exists>m. LogError m \<in> set (events (preRestoreSession P W st a d))) \<longrightarrow>
      \<not> restored (preRestoreSession P W st a d))"
proof (intro conjI)
  show "preRestoreSession_call P W st (Some (JStr a)) (Some (JStr d)) = Some (preRestoreSession P W st a d)"
    by (simp add: preRestoreSession_call_def)
  show "preRestoreSession_call P W st (Some (JStr a)) None =
     Some (preRestoreSession P W st a ''./wa-sessions-temp'')"
    by (simp add: preRestoreSession_call_def)
  show "preRestoreSession_call P W st accountId dataPath = None \<longleftrightarrow>
      \<not> ((\<exists>a. accountId = Some (JStr a)) \<and> (dataPath = None \<or> (\<exists>d. dataPath = Some (JStr d))))"
    by (rule preRestoreSession_call_None)
  show "sessionPath (preRestoreSession P W st a d) = path_join P d a"
    by (simp add: preRestoreSession_def Let_def caught_def clear_and_fail_def
          split: option.splits prod.splits)
  show "(\<exists>m. LogError m \<in> set (events (preRestoreSession P W st a d))) \<longleftrightarrow>
      \<not> mkdir_ok W d \<or> \<not> mkdir_ok W (path_join P d a) \<or> \<not> db_get_ok W \<or>
      (\<exists>blob. st a = Some blob \<and> blob \<noteq> [] \<and>
         (json_parse P (utf8dec P (b64dec P blob)) = None \<or>
          (\<exists>payload. json_parse P (utf8dec P (b64dec P blob)) = Some payload \<and>
             (js_get payload ''data'' = None \<or>
              (\<exists>dv. js_get payload ''data'' = Some dv \<and> truthy dv \<and>
                 decode_files P (the dv) = None)))))"
    by (rule preRestoreSession_error_iff)
  show "(\<exists>m. LogError m \<in> set (events (preRestoreSession P W st a d))) \<longrightarrow>
      \<not> restored (preRestoreSession P W st a d)"
    using preRestoreSession_error_not_restored by blast
qed

theorem preRestoreSession_call_total_witness:
  "preRestoreSession_call toy no_mkdir Map.empty (Some (JStr ''acct'')) (Some (JStr ''tmp'')) =
     Some (preRestoreSession toy no_mkdir Map.empty ''acct'' ''tmp'') \<and>
   sessionPath (preRestoreSession toy no_mkdir Map.empty ''acct'' ''tmp'') = ''tmp/acct'' \<and>
   LogError ''Restore error'' \<in> set (events (preRestoreSession toy no_mkdir Map.empty ''acct'' ''tmp'')) \<and>
   \<not> restored (preRestoreSession toy no_mkdir Map.empty ''acct'' ''tmp'')"
proof -
  note T = preRestoreSession_call_total [of toy no_mkdir Map.empty "''acct''" "''tmp''"]
  note T1 = T [THEN conjunct1]
    and T4 = T [THEN conjunct2, THEN conjunct2, THEN conjunct2, THEN conjunct1]
    and T6 = T [THEN conjunct2, THEN conjunct2, THEN conjunct2, THEN conjunct2, THEN conjunct2]
  have e: "LogError ''Restore error'' \<in> set (events (preRestoreSession toy no_mkdir Map.empty ''acct'' ''tmp''))"
    by (simp add: preRestoreSession_def no_mkdir_def calm_def caught_def)
  have "\<exists>m. LogError m \<in> set (events (preRestoreSession toy no_mkdir Map.empty ''acct'' ''tmp''))"
    by (rule exI [of _ "''Restore error''"]) (rule e)
  then have n: "\<not> restored (preRestoreSession toy no_mkdir Map.empty ''acct'' ''tmp'')"
    by (rule T6 [THEN mp])
  have p: "sessionPath (preRestoreSession toy no_mkdir Map.empty ''acct'' ''tmp'') = ''tmp/acct''"
    using T4 by simp
  show ?thesis using T1 p e n by (intro conjI)
qed

text \<open>
  C9 as stated fails twice. An account identifier that is a number, or none at all,
  makes the call throw. And an error inside the write loop, which its own
  \<^verbatim>\<open>catch\<close> logs as a warning, leaves \<^verbatim>\<open>restored\<close> true: in a world where no file
  can be written the one entry fails, nothing is written, and restore reports success.
\<close>

theorem preRestoreSession_call_throws:
  "preRestoreSession_call toy calm Map.empty (Some (JNum 12345)) None = None \<and>
   preRestoreSession_call toy calm Map.empty None None = None \<and>
   LogWarn ''Default/IndexedDB/000003.log'' \<in>
     set (events (preRestoreSession toy no_write [''acct'' \<mapsto> sample_blob ''session_v4''] ''acct'' ''tmp'')) \<and>
   count_wrote (events (preRestoreSession toy no_write [''acct'' \<mapsto> sample_blob ''session_v4''] ''acct'' ''tmp'')) = 0 \<and>
   restored (preRestoreSession toy no_write [''acct'' \<mapsto> sample_blob ''session_v4''] ''acct'' ''tmp'')"
  by (simp add: preRestoreSession_call_def sample_run no_write_def)

subsection \<open>A failed save leaves the store alone\<close>

text \<open>
  C10. When the \<^verbatim>\<open>Default\<close> directory is absent, or no file is collected, or
  \<^verbatim>\<open>JSON.stringify\<close> or \<^verbatim>\<open>gzip\<close> throws while the blob is built,
  \<^verbatim>\<open>saveSession\<close> returns false, never calls the store's set operation, and the store
  is what it was.
\<close>

theorem saveSession_failed_keeps_store:
  assumes "child sess ''Default'' = None \<or>
           fst (collectEssentialFiles P (path_join P dataPath accountId) sess) = [] \<or>
           pack P (fst (collectEssentialFiles P (path_join P dataPath accountId) sess))
             now savedAt accountId = None"
  shows "\<not> saved (saveSession P W st sess now savedAt dataPath accountId) \<and>
         (\<forall>a b. DbSet a b \<notin> set (save_events (saveSession P W st sess now savedAt dataPath accountId))) \<and>
         save_store (saveSession P W st sess now savedAt dataPath accountId) = st"
  using assms by (auto simp: saveSession_def save_failed_def Let_def split: option.splits)

theorem saveSession_failed_keeps_store_witness:
  "child None ''Default'' = None \<and>
   \<not> saved (saveSession toy calm [''acct'' \<mapsto> ''old''] None 0 ''t'' ''tmp'' ''acct'') \<and>
   save_events (saveSession toy calm [''acct'' \<mapsto> ''old''] None 0 ''t'' ''tmp'' ''acct'') =
     [LogWarn ''No Default folder''] \<and>
   save_store (saveSession toy calm [''acct'' \<mapsto> ''old''] None 0 ''t'' ''tmp'' ''acct'') ''acct'' =
     Some ''old''"
proof -
  have h: "child None ''Default'' = None" by simp
  from saveSession_failed_keeps_store [OF disjI1 [OF h], of toy calm "[''acct'' \<mapsto> ''old'']" 0 "''t''" "''tmp''" "''acct''"]
  show ?thesis by (simp add: saveSession_def save_failed_def)
qed

subsection \<open>Empty payloads\<close>

text \<open>
  C7. If the blob decodes down to a value of \<^verbatim>\<open>files\<close> that is absent (or otherwise
  falsy) or has no entries, \<^verbatim>\<open>preRestoreSession\<close> reports not restored and writes no
  file; and if collection yields no entry, \<^verbatim>\<open>saveSession\<close> returns false.
\<close>

theorem empty_payload_not_restored:
  "(mkdir_ok W dataPath \<and> mkdir_ok W (path_join P dataPath accountId) \<and> db_get_ok W \<and>
    st accountId = Some blob \<and> blob \<noteq> [] \<and>
    json_parse P (utf8dec P (b64dec P blob)) = Some payload \<and>
    js_get payload ''data'' = Some d \<and> truthy d \<and>
    decode_files P (the d) = Some files \<and>
    (\<not> truthy files \<or> object_entries P (the files) = []) \<longrightarrow>
      \<not> restored (preRestoreSession P W st accountId dataPath) \<and>
      count_wrote (events (preRestoreSession P W st accountId dataPath)) = 0) \<and>
   (fst (collectEssentialFiles P (path_join P dataPath accountId) sess) = [] \<longrightarrow>
      \<not> saved (saveSession P W st sess now savedAt dataPath accountId))"
proof (intro conjI impI)
  assume a: "mkdir_ok W dataPath \<and> mkdir_ok W (path_join P dataPath accountId) \<and> db_get_ok W \<and>
    st accountId = Some blob \<and> blob \<noteq> [] \<and>
    json_parse P (utf8dec P (b64dec P blob)) = Some payload \<and>
    js_get payload ''data'' = Some d \<and> truthy d \<and>
    decode_files P (the d) = Some files \<and>
    (\<not> truthy files \<or> object_entries P (the files) = [])"
  then have e: "preRestoreSession P W st accountId dataPath =
      \<lparr>restored = False, sessionPath = path_join P dataPath accountId,
       events = [DbGet accountId, LogWarn ''Empty session''], store_after = st\<rparr>"
    using preRestoreSession_decoded [of W dataPath P accountId st blob payload d files]
    by auto
  show "\<not> restored (preRestoreSession P W st accountId dataPath)"
    by (simp add: e)
  show "count_wrote (events (preRestoreSession P W st accountId dataPath)) = 0"
    by (simp add: e count_wrote_def)
next
  assume "fst (collectEssentialFiles P (path_join P dataPath accountId) sess) = []"
  then show "\<not> saved (saveSession P W st sess now savedAt dataPath accountId)"
    by (simp add: saveSession_def save_failed_def Let_def split: option.splits)
qed

theorem empty_payload_not_restored_witness:
  "\<not> restored (preRestoreSession toy calm [''acct'' \<mapsto> the (pack toy [] 0 ''t'' ''acct'')] ''acct'' ''tmp'') \<and>
   count_wrote (events (preRestoreSession toy calm
      [''acct'' \<mapsto> the (pack toy [] 0 ''t'' ''acct'')] ''acct'' ''tmp'')) = 0 \<and>
   fst (collectEssentialFiles toy (path_join toy ''tmp'' ''acct'') (Some (Dir [(''Default'', Dir [])]))) = [] \<and>
   \<not> saved (saveSession toy calm [''acct'' \<mapsto> the (pack toy [] 0 ''t'' ''acct'')]
      (Some (Dir [(''Default'', Dir [])])) 0 ''t'' ''tmp'' ''acct'')"
proof -
  obtain final where f: "pack toy [] 0 ''t'' ''acct'' = Some final"
    using pack_toy by blast
  from pack_decode [OF toy_lossless f] obtain d where
    d: "final \<noteq> []" "d \<noteq> []"
       "json_parse toy (utf8dec toy (b64dec toy final)) = Some (envelope d ''t'')"
       "decode_files toy (JStr d) = Some (Some (JObj []))"
    by auto
  have c: "fst (collectEssentialFiles toy (path_join toy ''tmp'' ''acct'') (Some (Dir [(''Default'', Dir [])]))) = []"
    by (simp add: collectEssentialFiles_def ESSENTIAL_DIRS_def)
  have h: "mkdir_ok calm ''tmp'' \<and> mkdir_ok calm (path_join toy ''tmp'' ''acct'') \<and> db_get_ok calm \<and>
    [''acct'' \<mapsto> final] ''acct'' = Some final \<and> final \<noteq> [] \<and>
    json_parse toy (utf8dec toy (b64dec toy final)) = Some (envelope d ''t'') \<and>
    js_get (envelope d ''t'') ''data'' = Some (Some (JStr d)) \<and> truthy (Some (JStr d)) \<and>
    decode_files toy (the (Some (JStr d))) = Some (Some (JObj [])) \<and>
    (\<not> truthy (Some (JObj [])) \<or> object_entries toy (the (Some (JObj []))) = [])"
    using d by (simp add: calm_def envelope_def)
  from empty_payload_not_restored [where W = calm and dataPath = "''tmp''" and P = toy
      and accountId = "''acct''" and st = "[''acct'' \<mapsto> final]" and blob = final
      and payload = "envelope d ''t''" and d = "Some (JStr d)" and files = "Some (JObj [])"
      and sess = "Some (Dir [(''Default'', Dir [])])" and now = 0 and savedAt = "''t''"] h c
  show ?thesis by (simp add: f)
qed

subsection \<open>The type tag is not read\<close>

text \<open>
  C4. Take a stored envelope, an object with any properties (a type tag of any value,
  or none), whose \<^verbatim>\<open>data\<close> is a non-empty string that decodes, decompresses and parses
  to a value with a non-empty \<^verbatim>\<open>files\<close> object. Then restore reports success; its trace
  is the fetch, the write loop over every entry of \<^verbatim>\<open>files\<close> in order, and the final
  count; every entry whose value is a string and whose path can be written is written
  with its decoded content under the session path; and any other envelope with the same
  \<^verbatim>\<open>data\<close> property, whatever its type tag, gives the same result, session path and
  trace.
\<close>

theorem type_tag_ignored:
  assumes "mkdir_ok W dataPath" and "mkdir_ok W (path_join P dataPath accountId)"
    and "db_get_ok W" and "st accountId = Some blob" and "blob \<noteq> []"
    and "json_parse P (utf8dec P (b64dec P blob)) = Some (JObj props)"
    and "map_of props ''data'' = Some (JStr d)" and "d \<noteq> []"
    and "gunzip P (b64dec P d) = Some z"
    and "json_parse P (utf8dec P z) = Some inner"
    and "js_get inner ''files'' = Some (Some (JObj fs))" and "fs \<noteq> []"
  shows "restored (preRestoreSession P W st accountId dataPath) \<and>
         events (preRestoreSession P W st accountId dataPath) =
           DbGet accountId #
           snd (restore_entries P W (path_join P dataPath accountId) fs) @
           [LogRestored (fst (restore_entries P W (path_join P dataPath accountId) fs)) (length fs)] \<and>
         (\<forall>k v. (k, JStr v) \<in> set fs \<and> write_ok W (path_join P (path_join P dataPath accountId) k) \<longrightarrow>
            Wrote (path_join P (path_join P dataPath accountId) k) (b64dec P v) \<in>
              set (events (preRestoreSession P W st accountId dataPath))) \<and>
         (\<forall>st' blob' props'.
            st' accountId = Some blob' \<and> blob' \<noteq> [] \<and>
            json_parse P (utf8dec P (b64dec P blob')) = Some (JObj props') \<and>
            map_of props' ''data'' = map_of props ''data'' \<longrightarrow>
            restored (preRestoreSession P W st' accountId dataPath) =
              restored (preRestoreSession P W st accountId dataPath) \<and>
            sessionPath (preRestoreSession P W st' accountId dataPath) =
              sessionPath (preRestoreSession P W st accountId dataPath) \<and>
            events (preRestoreSession P W st' accountId dataPath) =
              events (preRestoreSession P W st accountId dataPath))"
proof -
  have df: "decode_files P (the (Some (JStr d))) = Some (Some (JObj fs))"
    using assms(9,10,11) by (simp add: decode_files_def buffer_from_b64_def)
  have tr: "truthy (Some (JStr d))" using assms(8) by simp
  have run: "preRestoreSession P W st' accountId dataPath =
        \<lparr>restored = True, sessionPath = path_join P dataPath accountId,
         events = DbGet accountId #
           snd (restore_entries P W (path_join P dataPath accountId) fs) @
           [LogRestored (fst (restore_entries P W (path_join P dataPath accountId) fs)) (length fs)],
         store_after = st'\<rparr>"
    if "st' accountId = Some blob'" and "blob' \<noteq> []"
      and "json_parse P (utf8dec P (b64dec P blob')) = Some (JObj props')"
      and "map_of props' ''data'' = map_of props ''data''"
    for st' blob' props'
  proof -
    have g: "js_get (JObj props') ''data'' = Some (Some (JStr d))"
      using that(4) assms(7) by simp
    show ?thesis
      using preRestoreSession_decoded [of W dataPath P accountId st' blob' "JObj props'"
          "Some (JStr d)" "Some (JObj fs)"] assms(1,2,3,12) that(1,2,3) g tr df
      by simp
  qed
  have here: "preRestoreSession P W st accountId dataPath =
        \<lparr>restored = True, sessionPath = path_join P dataPath accountId,
         events = DbGet accountId #
           snd (restore_entries P W (path_join P dataPath accountId) fs) @
           [LogRestored (fst (restore_entries P W (path_join P dataPath accountId) fs)) (length fs)],
         store_after = st\<rparr>"
    using assms(4,5,6) by (rule run) simp
  show ?thesis
    by (auto simp: here run restore_entries_writes)
qed


theorem type_tag_ignored_witness:
  "restored (preRestoreSession toy calm [''acct'' \<mapsto> sample_blob ''session_v9''] ''acct'' ''tmp'') \<and>
   events (preRestoreSession toy calm [''acct'' \<mapsto> sample_blob ''session_v9''] ''acct'' ''tmp'') =
     [DbGet ''acct'', Wrote ''tmp/acct/Default/IndexedDB/000003.log'' ''0123456789'', LogRestored 1 1] \<and>
   Wrote ''tmp/acct/Default/IndexedDB/000003.log'' ''0123456789'' \<in>
     set (events (preRestoreSession toy calm [''acct'' \<mapsto> sample_blob ''session_v9''] ''acct'' ''tmp'')) \<and>
   events (preRestoreSession toy calm [''acct'' \<mapsto> sample_blob ''session_v4''] ''acct'' ''tmp'') =
     events (preRestoreSession toy calm [''acct'' \<mapsto> sample_blob ''session_v9''] ''acct'' ''tmp'')"
proof -
  let ?fs = "map (\<lambda>(k, v). (k, JStr v)) sample_files"
  let ?props = "\<lambda>tag. (''type'', JStr tag) # [(''data'', JStr sample_data), (''saved'', JStr ''t'')]"
  have f: "js_get (session_data sample_files 0 ''acct'') ''files'' = Some (Some (JObj ?fs))"
    by (simp add: session_data_def)
  have n: "?fs \<noteq> []"
    by (simp add: sample_files_def)
  have m: "map_of (?props ''session_v9'') ''data'' = Some (JStr sample_data)"
    by simp
  have s: "[''acct'' \<mapsto> sample_blob ''session_v9''] ''acct'' = Some (sample_blob ''session_v9'')"
    by simp
  note T = type_tag_ignored [where W = calm and P = toy and dataPath = "''tmp''"
      and accountId = "''acct''" and st = "[''acct'' \<mapsto> sample_blob ''session_v9'']"
      and blob = "sample_blob ''session_v9''" and props = "?props ''session_v9''"
      and d = sample_data and z = "toy_text (session_data sample_files 0 ''acct'')"
      and inner = "session_data sample_files 0 ''acct''" and fs = ?fs,
      OF calm_fields(1) calm_fields(1) calm_fields(3) s sample_blob_nonempty sample_blob_parse m
        sample_data_decode(3) sample_data_decode(1) sample_data_decode(2) f n]
  note T1 = T [THEN conjunct1]
    and T2 = T [THEN conjunct2, THEN conjunct1]
    and T3 = T [THEN conjunct2, THEN conjunct2, THEN conjunct1]
    and T4 = T [THEN conjunct2, THEN conjunct2, THEN conjunct2]
  have r: "restore_entries toy calm (path_join toy ''tmp'' ''acct'') ?fs =
      (1, [Wrote ''tmp/acct/Default/IndexedDB/000003.log'' ''0123456789''])"
    by (simp add: sample_files_def buffer_from_b64_def)
  have l: "length ?fs = 1"
    by (simp add: sample_files_def)
  have e: "events (preRestoreSession toy calm [''acct'' \<mapsto> sample_blob ''session_v9''] ''acct'' ''tmp'') =
     [DbGet ''acct'', Wrote ''tmp/acct/Default/IndexedDB/000003.log'' ''0123456789'', LogRestored 1 1]"
    unfolding T2 r l by simp
  have in_fs: "(''Default/IndexedDB/000003.log'', JStr ''0123456789'') \<in> set ?fs"
    by (simp add: sample_files_def)
  have "Wrote (path_join toy (path_join toy ''tmp'' ''acct'') ''Default/IndexedDB/000003.log'')
      (b64dec toy ''0123456789'') \<in>
     set (events (preRestoreSession toy calm [''acct'' \<mapsto> sample_blob ''session_v9''] ''acct'' ''tmp''))"
    by (rule T3 [rule_format]) (rule conjI [OF in_fs calm_fields(2)])
  then have w: "Wrote ''tmp/acct/Default/IndexedDB/000003.log'' ''0123456789'' \<in>
     set (events (preRestoreSession toy calm [''acct'' \<mapsto> sample_blob ''session_v9''] ''acct'' ''tmp''))"
    by simp
  have s4: "[''acct'' \<mapsto> sample_blob ''session_v4''] ''acct'' = Some (sample_blob ''session_v4'')"
    by simp
  have m4: "map_of (?props ''session_v4'') ''data'' = map_of (?props ''session_v9'') ''data''"
    by simp
  have same: "events (preRestoreSession toy calm [''acct'' \<mapsto> sample_blob ''session_v4''] ''acct'' ''tmp'') =
     events (preRestoreSession toy calm [''acct'' \<mapsto> sample_blob ''session_v9''] ''acct'' ''tmp'')"
    using T4 [rule_format, of "[''acct'' \<mapsto> sample_blob ''session_v4'']" "sample_blob ''session_v4''"
        "?props ''session_v4''"] s4 sample_blob_nonempty [of "''session_v4''"]
      sample_blob_parse [of "''session_v4''"] m4
    by blast
  show ?thesis
    using T1 e w same by (intro conjI)
qed

subsection \<open>The result of a restore that reached the write loop\<close>

text \<open>
  C5, as amended. When the decoded payload has a truthy \<^verbatim>\<open>files\<close> value with at least
  one entry, restore reports success whichever writes fail; the number of files
  actually written is the first number of the final log message
  (\<^verbatim>\<open>Restored n/fileCount\<close>), and it is at most the number of entries. The returned
  object carries \<^verbatim>\<open>restored\<close> and \<^verbatim>\<open>sessionPath\<close> only.
\<close>

theorem restore_success_logs_count:
  assumes "mkdir_ok W dataPath" and "mkdir_ok W (path_join P dataPath accountId)"
    and "db_get_ok W" and "st accountId = Some blob" and "blob \<noteq> []"
    and "json_parse P (utf8dec P (b64dec P blob)) = Some payload"
    and "js_get payload ''data'' = Some d" and "truthy d"
    and "decode_files P (the d) = Some files"
    and "truthy files" and "object_entries P (the files) \<noteq> []"
  shows "restored (preRestoreSession P W st accountId dataPath) \<and>
         last (events (preRestoreSession P W st accountId dataPath)) =
           LogRestored (count_wrote (events (preRestoreSession P W st accountId dataPath)))
             (length (object_entries P (the files))) \<and>
         count_wrote (events (preRestoreSession P W st accountId dataPath)) \<le>
           length (object_entries P (the files))"
proof -
  have e: "preRestoreSession P W st accountId dataPath =
      \<lparr>restored = True, sessionPath = path_join P dataPath accountId,
       events = DbGet accountId #
         snd (restore_entries P W (path_join P dataPath accountId) (object_entries P (the files))) @
         [LogRestored
            (fst (restore_entries P W (path_join P dataPath accountId) (object_entries P (the files))))
            (length (object_entries P (the files)))],
       store_after = st\<rparr>"
    using assms preRestoreSession_decoded [of W dataPath P accountId st blob payload d files]
    by simp
  show ?thesis
    using restore_entries_length [of P W "path_join P dataPath accountId" "object_entries P (the files)"]
    by (simp add: e restore_entries_count)
qed

theorem restore_success_logs_count_witness:
  "restored (preRestoreSession toy no_write [''acct'' \<mapsto> sample_blob ''session_v4''] ''acct'' ''tmp'') \<and>
   last (events (preRestoreSession toy no_write [''acct'' \<mapsto> sample_blob ''session_v4''] ''acct'' ''tmp'')) =
     LogRestored 0 1"
proof -
  have w: "mkdir_ok no_write ''tmp''" "mkdir_ok no_write (path_join toy ''tmp'' ''acct'')"
    "db_get_ok no_write"
    by (simp_all add: no_write_def)
  have s: "[''acct'' \<mapsto> sample_blob ''session_v4''] ''acct'' = Some (sample_blob ''session_v4'')"
    by simp
  have g: "js_get (JObj ((''type'', JStr ''session_v4'') #
        [(''data'', JStr sample_data), (''saved'', JStr ''t'')])) ''data'' = Some (Some (JStr sample_data))"
    by simp
  have t: "truthy (Some (JStr sample_data))"
    using sample_data_decode(3) by simp
  have df: "decode_files toy (the (Some (JStr sample_data))) =
      Some (Some (JObj (map (\<lambda>(k, v). (k, JStr v)) sample_files)))"
    using sample_data_decode(1,2)
    by (simp add: decode_files_def buffer_from_b64_def session_data_def)
  have tf: "truthy (Some (JObj (map (\<lambda>(k, v). (k, JStr v)) sample_files)))" by simp
  have ne: "object_entries toy (the (Some (JObj (map (\<lambda>(k, v). (k, JStr v)) sample_files)))) \<noteq> []"
    by (simp add: sample_files_def)
  from restore_success_logs_count [where W = no_write and dataPath = "''tmp''" and P = toy
      and accountId = "''acct''" and st = "[''acct'' \<mapsto> sample_blob ''session_v4'']"
      and blob = "sample_blob ''session_v4''" and d = "Some (JStr sample_data)"
      and files = "Some (JObj (map (\<lambda>(k, v). (k, JStr v)) sample_files))",
      OF w s sample_blob_nonempty sample_blob_parse g t df tf ne]
  show ?thesis
    by (simp add: sample_run no_write_def sample_files_def)
qed

text \<open>
  C5 as stated fails: the same stored blob restored in a world where the write succeeds
  and in one where it fails returns the same object, with one file written in the first
  and none in the second, so the returned object does not hold the count.
\<close>

theorem restore_count_not_returned:
  "restored (preRestoreSession toy calm [''acct'' \<mapsto> sample_blob ''session_v4''] ''acct'' ''tmp'') =
     restored (preRestoreSession toy no_write [''acct'' \<mapsto> sample_blob ''session_v4''] ''acct'' ''tmp'') \<and>
   sessionPath (preRestoreSession toy calm [''acct'' \<mapsto> sample_blob ''session_v4''] ''acct'' ''tmp'') =
     sessionPath (preRestoreSession toy no_write [''acct'' \<mapsto> sample_blob ''session_v4''] ''acct'' ''tmp'') \<and>
   count_wrote (events (preRestoreSession toy calm [''acct'' \<mapsto> sample_blob ''session_v4''] ''acct'' ''tmp'')) = 1 \<and>
   count_wrote (events (preRestoreSession toy no_write [''acct'' \<mapsto> sample_blob ''session_v4''] ''acct'' ''tmp'')) = 0"
  by (simp add: sample_run no_write_def)


subsection \<open>When the stored value is cleared\<close>

text \<open>
  C2, as amended. Once the blob has been fetched, restore calls the store's clear
  operation exactly when the decoded blob fails to parse as JSON, or the envelope's
  \<^verbatim>\<open>data\<close> is truthy and the inner \<^verbatim>\<open>try\<close> block throws (base64 decoding, gunzip,
  the inner JSON parse, or reading \<^verbatim>\<open>files\<close> of an inner value that is \<^verbatim>\<open>null\<close>);
  in these cases it reports not restored. When the envelope has no \<^verbatim>\<open>data\<close> field it
  reports not restored without calling clear.
\<close>

theorem clear_iff:
  assumes "mkdir_ok W dataPath" and "mkdir_ok W (path_join P dataPath accountId)"
    and "db_get_ok W" and "st accountId = Some blob" and "blob \<noteq> []"
  shows "(DbClear accountId \<in> set (events (preRestoreSession P W st accountId dataPath)) \<longleftrightarrow>
            json_parse P (utf8dec P (b64dec P blob)) = None \<or>
            (\<exists>payload d. json_parse P (utf8dec P (b64dec P blob)) = Some payload \<and>
               js_get payload ''data'' = Some d \<and> truthy d \<and> decode_files P (the d) = None)) \<and>
         (DbClear accountId \<in> set (events (preRestoreSession P W st accountId dataPath)) \<longrightarrow>
            \<not> restored (preRestoreSession P W st accountId dataPath)) \<and>
         (\<forall>payload. json_parse P (utf8dec P (b64dec P blob)) = Some payload \<and>
            js_get payload ''data'' = Some None \<longrightarrow>
            \<not> restored (preRestoreSession P W st accountId dataPath) \<and>
            DbClear accountId \<notin> set (events (preRestoreSession P W st accountId dataPath)))"
  using assms
  by (auto simp: preRestoreSession_def Let_def caught_def clear_and_fail_def
        dest: restore_entries_no_clear split: option.splits prod.splits if_splits)

theorem clear_iff_witness:
  "json_parse toy (utf8dec toy (b64dec toy corrupt_blob)) = None \<and>
   DbClear ''acct'' \<in> set (events (preRestoreSession toy calm [''acct'' \<mapsto> corrupt_blob] ''acct'' ''tmp'')) \<and>
   \<not> restored (preRestoreSession toy calm [''acct'' \<mapsto> corrupt_blob] ''acct'' ''tmp'') \<and>
   js_get (JObj [(''type'', JStr ''session_v5'')]) ''data'' = Some None \<and>
   \<not> restored (preRestoreSession toy calm [''acct'' \<mapsto> no_data_blob] ''acct'' ''tmp'') \<and>
   DbClear ''acct'' \<notin> set (events (preRestoreSession toy calm [''acct'' \<mapsto> no_data_blob] ''acct'' ''tmp''))"
proof -
  have c: "json_parse toy (utf8dec toy (b64dec toy corrupt_blob)) = None"
    by (simp add: corrupt_blob_def toy_parse_def)
  have cs: "[''acct'' \<mapsto> corrupt_blob] ''acct'' = Some corrupt_blob" "corrupt_blob \<noteq> []"
    by (simp_all add: corrupt_blob_def)
  have n: "json_parse toy (utf8dec toy (b64dec toy no_data_blob)) = Some (JObj [(''type'', JStr ''session_v5'')])"
    by (simp add: no_data_blob_def toy_parse_text)
  have ns: "[''acct'' \<mapsto> no_data_blob] ''acct'' = Some no_data_blob" "no_data_blob \<noteq> []"
    by (simp_all add: no_data_blob_def toy_text_nonempty)
  have g: "js_get (JObj [(''type'', JStr ''session_v5'')]) ''data'' = Some None"
    by simp
  from clear_iff [where W = calm and P = toy and dataPath = "''tmp''" and accountId = "''acct''"
      and st = "[''acct'' \<mapsto> corrupt_blob]" and blob = corrupt_blob,
      OF calm_fields(1) calm_fields(1) calm_fields(3) cs] c
  have 1: "DbClear ''acct'' \<in> set (events (preRestoreSession toy calm [''acct'' \<mapsto> corrupt_blob] ''acct'' ''tmp'')) \<and>
     \<not> restored (preRestoreSession toy calm [''acct'' \<mapsto> corrupt_blob] ''acct'' ''tmp'')"
    by blast
  from clear_iff [where W = calm and P = toy and dataPath = "''tmp''" and accountId = "''acct''"
      and st = "[''acct'' \<mapsto> no_data_blob]" and blob = no_data_blob,
      OF calm_fields(1) calm_fields(1) calm_fields(3) ns] n g
  have 2: "\<not> restored (preRestoreSession toy calm [''acct'' \<mapsto> no_data_blob] ''acct'' ''tmp'') \<and>
     DbClear ''acct'' \<notin> set (events (preRestoreSession toy calm [''acct'' \<mapsto> no_data_blob] ''acct'' ''tmp''))"
    by blast
  from 1 2 c g show ?thesis by blast
qed

text \<open>
  C2 as stated fails in both directions. An envelope whose \<^verbatim>\<open>data\<close> field is the empty
  string has a data field on which gunzip fails, and clear is not called (the test
  \<^verbatim>\<open>if (payload.data)\<close> is one of truthiness). An envelope whose data decodes,
  decompresses and parses to \<^verbatim>\<open>null\<close> has no failing decode, gunzip or parse, and clear
  is called (reading \<^verbatim>\<open>sessionObj.files\<close> throws inside the same \<^verbatim>\<open>try\<close>).
\<close>

theorem clear_not_iff_data_field:
  "json_parse toy (utf8dec toy (b64dec toy empty_data_blob)) =
     Some (JObj [(''type'', JStr ''session_v4''), (''data'', JStr [])]) \<and>
   gunzip toy (b64dec toy []) = None \<and>
   DbClear ''acct'' \<notin> set (events (preRestoreSession toy calm [''acct'' \<mapsto> empty_data_blob] ''acct'' ''tmp'')) \<and>
   json_parse toy (utf8dec toy (b64dec toy null_inner_blob)) =
     Some (envelope (CHR ''g'' # toy_text JNull) ''t'') \<and>
   gunzip toy (b64dec toy (CHR ''g'' # toy_text JNull)) = Some (toy_text JNull) \<and>
   json_parse toy (utf8dec toy (toy_text JNull)) = Some JNull \<and>
   DbClear ''acct'' \<in> set (events (preRestoreSession toy calm [''acct'' \<mapsto> null_inner_blob] ''acct'' ''tmp''))"
proof -
  have "DbClear ''acct'' \<notin> set (events (preRestoreSession toy calm [''acct'' \<mapsto> empty_data_blob] ''acct'' ''tmp''))"
    by (simp add: empty_data_run)
  moreover have "DbClear ''acct'' \<in> set (events (preRestoreSession toy calm [''acct'' \<mapsto> null_inner_blob] ''acct'' ''tmp''))"
    by (simp add: null_inner_run)
  moreover have "json_parse toy (utf8dec toy (b64dec toy empty_data_blob)) =
     Some (JObj [(''type'', JStr ''session_v4''), (''data'', JStr [])])"
    by (simp add: empty_data_blob_def toy_parse_text)
  moreover have "json_parse toy (utf8dec toy (b64dec toy null_inner_blob)) =
     Some (envelope (CHR ''g'' # toy_text JNull) ''t'')"
    by (simp add: null_inner_blob_def toy_parse_text)
  moreover have "gunzip toy (b64dec toy []) = None"
    "gunzip toy (b64dec toy (CHR ''g'' # toy_text JNull)) = Some (toy_text JNull)"
    "json_parse toy (utf8dec toy (toy_text JNull)) = Some JNull"
    by (simp_all add: toy_gunzip_def toy_parse_text)
  ultimately show ?thesis by blast
qed

subsection \<open>What a snapshot never contains\<close>

text \<open>
  C6. Every entry of a collected snapshot is the relative path and the base64 text of a
  regular file below an essential directory whose name is none of \<^verbatim>\<open>LOCK\<close>,
  \<^verbatim>\<open>SingletonLock\<close>, \<^verbatim>\<open>SingletonCookie\<close>, \<^verbatim>\<open>SingletonSocket\<close>, whose size is not 0
  and whose size is at most 5 MiB: no entry is made for a lock file, an empty file or
  a file over the per-file budget, at any depth.
\<close>

theorem collected_entries_eligible:
  "\<forall>(k, v) \<in> set (fst (collectEssentialFiles P sp sess)).
     \<exists>(full, name, c) \<in> set (essential_files P sp sess).
       k = path_relative P sp full \<and> v = b64enc P c \<and>
       name \<notin> set LOCK_NAMES \<and> length c \<noteq> 0 \<and> length c \<le> MAX_FILE_SIZE"
proof -
  have "\<forall>e \<in> set (fst (collectEssentialFiles P sp sess)).
      accepted P sp (set (essential_files P sp sess)) e"
    by (rule collected_accepted)
  then show ?thesis
    by (fastforce simp: accepted_def)
qed

theorem collected_entries_eligible_witness:
  "fst (collectEssentialFiles toy ''tmp/acct'' (Some sample_tree)) =
     [(''Default/IndexedDB/000003.log'', ''0123456789''),
      (''Default/Local Storage/leveldb/CURRENT'', ''abcd'')] \<and>
   (\<exists>(full, name, c) \<in> set (essential_files toy ''tmp/acct'' (Some sample_tree)).
       ''Default/IndexedDB/000003.log'' = path_relative toy ''tmp/acct'' full \<and>
       ''0123456789'' = b64enc toy c \<and>
       name \<notin> set LOCK_NAMES \<and> length c \<noteq> 0 \<and> length c \<le> MAX_FILE_SIZE)"
proof -
  have m: "(''Default/IndexedDB/000003.log'', ''0123456789'') \<in>
      set (fst (collectEssentialFiles toy ''tmp/acct'' (Some sample_tree)))"
    by (simp add: sample_collect)
  from bspec [OF collected_entries_eligible [of toy "''tmp/acct''" "Some sample_tree"] m]
  show ?thesis by (simp add: sample_collect)
qed

subsection \<open>The size budget of a walk\<close>




subsection \<open>Round trip\<close>

text \<open>
  C1. On a platform whose encoders are undone by its decoders, in a world where the
  store and the file system accept every call, take a session tree whose files under
  the two essential directories are each of at most 5 MiB and together of at most
  15 MiB, from which at least one file is collected. Then \<^verbatim>\<open>saveSession\<close> succeeds, and
  \<^verbatim>\<open>preRestoreSession\<close> on the store it leaves succeeds and writes, for every collected
  entry in order and nothing else, the decoded content at the join of the session path
  and the entry's relative path; each such content is the content of a file of the
  tree with that relative path; and, relative paths of distinct files being distinct,
  every file that is neither a lock file nor empty is written back with its own content
  at its own relative path.
\<close>

theorem round_trip:
  assumes "lossless P"
    and "mkdir_ok W dataPath" and "mkdir_ok W sp" and "db_get_ok W" and "db_set_ok W"
    and "\<forall>p. write_ok W p"
    and "sp = path_join P dataPath accountId"
    and "files = fst (collectEssentialFiles P sp sess)"
    and "\<forall>f \<in> set (essential_files P sp sess). length (snd (snd f)) \<le> MAX_FILE_SIZE"
    and "size_sum (essential_files P sp sess) \<le> MAX_TOTAL_SIZE"
    and "child sess ''Default'' \<noteq> None" and "files \<noteq> []"
    and "pack P files now savedAt accountId \<noteq> None"
    and "sv = saveSession P W st sess now savedAt dataPath accountId"
    and "r = preRestoreSession P W (save_store sv) accountId dataPath"
  shows "saved sv \<and> restored r \<and>
     events r = DbGet accountId #
       map (\<lambda>(k, v). Wrote (path_join P sp k) (b64dec P v)) files @
       [LogRestored (length files) (length files)] \<and>
     (\<forall>(k, v) \<in> set files. \<exists>(full, name, c) \<in> set (essential_files P sp sess).
        k = path_relative P sp full \<and> b64dec P v = c) \<and>
     (distinct (map (\<lambda>f. path_relative P sp (fst f)) (essential_files P sp sess)) \<longrightarrow>
      (\<forall>(full, name, c) \<in> set (essential_files P sp sess).
         name \<notin> set LOCK_NAMES \<and> c \<noteq> [] \<longrightarrow>
         Wrote (path_join P sp (path_relative P sp full)) c \<in> set (events r)))"
proof -
  from assms(13) obtain final where f: "pack P files now savedAt accountId = Some final"
    by blast
  have b64: "\<And>x. b64dec P (b64enc P x) = x"
    using assms(1) by (simp add: lossless_def)
  have sv: "sv = \<lparr>saved = True, save_events = [DbSet accountId final],
                  save_store = st(accountId \<mapsto> final)\<rparr>"
    unfolding assms(14)
    using assms(11) assms(12) f assms(5) unfolding assms(8) assms(7)
    by (rule saveSession_ok)
  have r: "r = \<lparr>restored = True, sessionPath = sp,
      events = DbGet accountId #
        map (\<lambda>(k, v). Wrote (path_join P sp k) (b64dec P v)) files @
        [LogRestored (length files) (length files)],
      store_after = st(accountId \<mapsto> final)\<rparr>"
    unfolding assms(15) sv
    using restore_packed [OF assms(1,2) _ assms(4,6) f assms(12), of accountId "st(accountId \<mapsto> final)"]
      assms(3)
    by (simp add: assms(7))
  have acc: "\<forall>e \<in> set files. accepted P sp (set (essential_files P sp sess)) e"
    unfolding assms(8) by (rule collected_accepted)
  have sound: "\<forall>(k, v) \<in> set files. \<exists>(full, name, c) \<in> set (essential_files P sp sess).
        k = path_relative P sp full \<and> b64dec P v = c"
    using acc by (fastforce simp: accepted_def b64)
  have complete: "\<forall>(full, name, c) \<in> set (essential_files P sp sess).
         name \<notin> set LOCK_NAMES \<and> c \<noteq> [] \<longrightarrow>
         Wrote (path_join P sp (path_relative P sp full)) c \<in> set (events r)"
    if dist: "distinct (map (\<lambda>f. path_relative P sp (fst f)) (essential_files P sp sess))"
  proof (clarify)
    fix full name c
    assume m: "(full, name, c) \<in> set (essential_files P sp sess)"
      and nl: "name \<notin> set LOCK_NAMES" and ne: "c \<noteq> []"
    have el: "eligible (full, name, c)"
      using assms(9) m nl ne by (auto simp: eligible_def)
    from collected_complete [OF assms(10) m el]
    obtain v where kv: "(path_relative P sp full, v) \<in> set files"
      unfolding assms(8) by auto
    from acc kv obtain full' name' c' where
      m': "(full', name', c') \<in> set (essential_files P sp sess)"
      and k': "path_relative P sp full = path_relative P sp full'" and v: "v = b64enc P c'"
      by (fastforce simp: accepted_def)
    have "inj_on (\<lambda>f. path_relative P sp (fst f)) (set (essential_files P sp sess))"
      using dist by (simp add: distinct_map)
    from inj_onD [OF this _ m m'] k' have "c' = c" by simp
    then have "Wrote (path_join P sp (path_relative P sp full)) c =
        (\<lambda>(k, v). Wrote (path_join P sp k) (b64dec P v)) (path_relative P sp full, v)"
      using v b64 by simp
    also have "\<dots> \<in> set (map (\<lambda>(k, v). Wrote (path_join P sp k) (b64dec P v)) files)"
      using kv unfolding set_map by (rule imageI)
    finally show "Wrote (path_join P sp (path_relative P sp full)) c \<in> set (events r)"
      by (simp add: r)
  qed
  show ?thesis
    using sound complete by (simp add: sv r)
qed


theorem round_trip_witness:
  "saved (saveSession toy calm Map.empty (Some scenario_tree) 0 ''t'' ''tmp'' ''acct'') \<and>
   restored (preRestoreSession toy calm
     (save_store (saveSession toy calm Map.empty (Some scenario_tree) 0 ''t'' ''tmp'' ''acct''))
     ''acct'' ''tmp'') \<and>
   events (preRestoreSession toy calm
     (save_store (saveSession toy calm Map.empty (Some scenario_tree) 0 ''t'' ''tmp'' ''acct''))
     ''acct'' ''tmp'') =
     [DbGet ''acct'',
      Wrote ''tmp/acct/Default/IndexedDB/000003.log'' ''0123456789'',
      Wrote ''tmp/acct/Default/Local Storage/leveldb/CURRENT'' ''abcd'',
      LogRestored 2 2]"
proof -
  let ?files = "[(''Default/IndexedDB/000003.log'', ''0123456789''),
       (''Default/Local Storage/leveldb/CURRENT'', ''abcd'')]"
  have sp: "''tmp/acct'' = path_join toy ''tmp'' ''acct''" by simp
  have fs: "?files = fst (collectEssentialFiles toy ''tmp/acct'' (Some scenario_tree))"
    by (simp add: scenario_collect)
  have each: "\<forall>f \<in> set (essential_files toy ''tmp/acct'' (Some scenario_tree)).
      length (snd (snd f)) \<le> MAX_FILE_SIZE"
    by (simp add: scenario_essential_files MAX_FILE_SIZE_def)
  have total: "size_sum (essential_files toy ''tmp/acct'' (Some scenario_tree)) \<le> MAX_TOTAL_SIZE"
    by (simp add: scenario_essential_files MAX_TOTAL_SIZE_def)
  have dflt: "child (Some scenario_tree) ''Default'' \<noteq> None"
    by (simp add: scenario_tree_def)
  have ne: "?files \<noteq> []" by simp
  have pk: "pack toy ?files 0 ''t'' ''acct'' \<noteq> None"
    using pack_toy [of ?files 0 "''t''" "''acct''"] by auto
  have w: "\<forall>p. write_ok calm p" by simp
  from round_trip [OF toy_lossless calm_fields(1) calm_fields(1) calm_fields(3) calm_fields(4) w
      sp fs each total dflt ne pk refl refl, of Map.empty]
  show ?thesis by simp
qed

end
